theory Spec2Isabelle
  imports Complex_Main "HOL-Library.Char_ord" "HOL-Library.List_Lexorder" "HOL-Library.Log_Nat"
begin

section \<open>Dash network orchestrator (dash\_net.py)\<close>

text \<open>
  A shallow embedding of \<^verbatim>\<open>electrum_dash/dash_net.py\<close>: the spork table
  (class \<^verbatim>\<open>DashSporks\<close>), the peer pool with its connecting set, pending queue and ban
  list (class \<^verbatim>\<open>DashNet\<close>), the two caches of gossiped messages and the hostname
  validator. Every method is a function from the object's state to its new state; what the
  method reads from outside (the clock, the random generator, the outcome of an awaited
  future) is an argument. Clock readings are doubles. Logging and GUI callbacks of the pool do
  not touch the state and are left out.
\<close>

subsection \<open>Constants\<close>

definition Y2099 :: int where
  "Y2099 = 4070908800"

definition MIN_PEERS_LIMIT :: int where
  "MIN_PEERS_LIMIT = 2"

definition MAX_PEERS_LIMIT :: int where
  "MAX_PEERS_LIMIT = 8"

definition MAX_PEERS_DEFAULT :: int where
  "MAX_PEERS_DEFAULT = 2"

subsection \<open>Clock readings\<close>

text \<open>
  \<^verbatim>\<open>time.time()\<close> returns an IEEE 754 binary64 double. Every finite double is an
  integer multiple of \<open>2^-1074\<close> and is represented by that integer: \<open>N\<close> stands for
  the double \<open>N / 2^1074\<close>, and \<open>seconds n\<close> for the integer \<open>n\<close>. An integer
  on this scale is a double when it has at most 53 significant bits (\<open>is_double\<close>).
  Overflow, at \<open>2^1024\<close>, is out of the reach of clock readings and is not modelled.
\<close>

type_synonym double = int

definition seconds :: "int \<Rightarrow> double" where
  "seconds n = n * 2 ^ 1074"

text \<open>Rounding a positive integer to 53 significant bits, ties to even.\<close>

definition round_53 :: "int \<Rightarrow> int" where
  "round_53 N =
     (if bitlen N \<le> 53 then N
      else (let s = nat (bitlen N - 53);
                q = N div 2 ^ s;
                r = N mod 2 ^ s;
                h = 2 ^ (s - 1)
            in (if r > h \<or> (r = h \<and> odd q) then q + 1 else q) * 2 ^ s))"

definition is_double :: "double \<Rightarrow> bool" where
  "is_double N = (2 ^ nat (bitlen \<bar>N\<bar> - 53) dvd N)"

text \<open>
  The difference \<^verbatim>\<open>a - b\<close> of two doubles: the exact difference, rounded to the nearest
  double, ties to even.
\<close>

definition fsub :: "double \<Rightarrow> double \<Rightarrow> double" where
  "fsub a b = (let d = a - b in if d < 0 then - round_53 (- d) else round_53 d)"

text \<open>
  The quotient \<^verbatim>\<open>a / b\<close> of two Python integers, for a positive divisor (the module
  divides by the literal 15): the exact quotient, rounded to the nearest double, ties to
  even. \<open>t\<close> is the integer part of the quotient on the scale of the doubles and
  \<open>u\<close> the remainder, which decides a tie.
\<close>

definition int_truediv :: "int \<Rightarrow> int \<Rightarrow> double" where
  "int_truediv a b =
     (let n = \<bar>a\<bar> * 2 ^ 1074;
          t = n div b;
          u = n mod b;
          m = (if bitlen t \<le> 53
               then (if 2 * u > b \<or> (2 * u = b \<and> odd t) then t + 1 else t)
               else (let s = nat (bitlen t - 53);
                         q = t div 2 ^ s;
                         r = t mod 2 ^ s;
                         h = 2 ^ (s - 1)
                     in (if r > h \<or> (r = h \<and> (u > 0 \<or> odd q)) then q + 1 else q) * 2 ^ s))
      in if a < 0 then - m else m)"

subsection \<open>Data model\<close>

datatype error = IndexError | AttributeError | AssertionError | OtherException

text \<open>An aiorpcx task group; the pool only reads its closed flag.\<close>

datatype taskgroup = TaskGroup (closed: bool)

text \<open>
  A connected peer (class \<^verbatim>\<open>DashPeer\<close>, declared in another module): the fields
  this module reads and writes. Python compares the objects by identity, which is the field
  \<open>ident\<close>.
\<close>

record DashPeer =
  ident :: nat
  peer :: string
  ban_msg :: "string option"
  ban_till :: "double option"
  user_agent :: string
  getaddr_done :: bool
  sporks_done :: bool

record ban_record =
  at' :: double  \<comment> \<open>the key \<^verbatim>\<open>at\<close>\<close>
  msg :: "string option"
  till :: "double option"
  ua :: string

text \<open>An entry of \<^verbatim>\<open>recent_islocks\<close>: the tuple (txid, time, islock, quorum, request id).\<close>

type_synonym islock_entry = "string \<times> double \<times> string \<times> string \<times> string"

text \<open>
  A mixing-queue announcement (\<^verbatim>\<open>dsq\<close>, declared in another module): the three fields
  of the fingerprint, the outpoint as \<^verbatim>\<open>str()\<close> renders it, and the rest of the
  message (the signature).
\<close>

record dsq_msg =
  nDenom :: int
  masternodeOutPoint :: string
  nTime :: int
  vchSig :: string

record DashSporks =
  from_peers :: "string set"
  gathered_sporks :: "int \<rightharpoonup> int"

record DashNet =
  default_port :: int
  dns_seeds :: "string list"
  main_taskgroup :: "taskgroup option"
  peers :: "string \<rightharpoonup> DashPeer"
  peeers :: "(string \<rightharpoonup> DashPeer) option"
  connecting :: "string set"
  peers_queue :: "string list option"
  banlist :: "string \<rightharpoonup> ban_record"
  found_peers :: "string set"
  use_static_peers :: bool
  static_peers :: "string list"
  disconnected_static :: "string \<rightharpoonup> double"
  max_peers_attr :: int
  config_dash_max_peers :: "int option"
  sporks :: DashSporks
  recent_islocks :: "islock_entry list"
  recent_islocks_clear :: double
  recent_dsq :: "dsq_msg list"
  recent_dsq_hashes :: "string list"

subsection \<open>Capacity accessor\<close>

text \<open>
  The property \<^verbatim>\<open>max_peers\<close>. The getter returns \<^verbatim>\<open>_max_peers\<close> (here
  \<open>max_peers_attr\<close>). The setter runs two conditional assignments, stores the result and
  writes it to the configuration under the key \<^verbatim>\<open>dash_max_peers\<close>.
\<close>

definition max_peers :: "DashNet \<Rightarrow> int" where
  "max_peers s = max_peers_attr s"

definition max_peers_setter :: "DashNet \<Rightarrow> int \<Rightarrow> DashNet" where
  "max_peers_setter s cnt0 =
     (let cnt1 = (if cnt0 < MIN_PEERS_LIMIT then MIN_PEERS_LIMIT else cnt0);
          cnt2 = (if cnt1 > MAX_PEERS_LIMIT then MAX_PEERS_LIMIT else cnt1)
      in s\<lparr>max_peers_attr := cnt2, config_dash_max_peers := Some cnt2\<rparr>)"

subsection \<open>Spork table\<close>

text \<open>
  The members of the enum \<^verbatim>\<open>SporkID\<close> that this module names. The enum is declared
  in the module \<^verbatim>\<open>dash_msg\<close>, so the number of each member (\<open>val\<close> below) and the
  class method \<^verbatim>\<open>SporkID.has_value\<close> are arguments of the functions that use them.
\<close>

datatype SporkID =
    SPORK_2_INSTANTSEND_ENABLED
  | SPORK_3_INSTANTSEND_BLOCK_FILTERING
  | SPORK_5_INSTANTSEND_MAX_VALUE
  | SPORK_6_NEW_SIGS
  | SPORK_9_SUPERBLOCKS_ENABLED
  | SPORK_12_RECONSIDER_BLOCKS
  | SPORK_15_DETERMINISTIC_MNS_ENABLED
  | SPORK_16_INSTANTSEND_AUTOLOCKS
  | SPORK_17_QUORUM_DKG_ENABLED
  | SPORK_19_CHAINLOCKS_ENABLED
  | SPORK_20_INSTANTSEND_LLMQ_BASED

text \<open>The dictionary literal \<^verbatim>\<open>SPORKS_DEFAULTS\<close>: a later entry overwrites an earlier one.\<close>

definition SPORKS_DEFAULTS :: "(SporkID \<Rightarrow> int) \<Rightarrow> (int \<rightharpoonup> int)" where
  "SPORKS_DEFAULTS val =
     Map.empty
       (val SPORK_2_INSTANTSEND_ENABLED \<mapsto> 0,
        val SPORK_3_INSTANTSEND_BLOCK_FILTERING \<mapsto> 0,
        val SPORK_5_INSTANTSEND_MAX_VALUE \<mapsto> 1000,
        val SPORK_6_NEW_SIGS \<mapsto> Y2099,
        val SPORK_9_SUPERBLOCKS_ENABLED \<mapsto> Y2099,
        val SPORK_12_RECONSIDER_BLOCKS \<mapsto> 0,
        val SPORK_15_DETERMINISTIC_MNS_ENABLED \<mapsto> Y2099,
        val SPORK_16_INSTANTSEND_AUTOLOCKS \<mapsto> Y2099,
        val SPORK_17_QUORUM_DKG_ENABLED \<mapsto> Y2099,
        val SPORK_19_CHAINLOCKS_ENABLED \<mapsto> Y2099,
        val SPORK_20_INSTANTSEND_LLMQ_BASED \<mapsto> Y2099)"

definition DashSporks_init :: DashSporks where
  "DashSporks_init = \<lparr>from_peers = {}, gathered_sporks = Map.empty\<rparr>"

text \<open>
  The class \<^verbatim>\<open>DashSporks\<close> has no base class and never assigns
  \<^verbatim>\<open>self.logger\<close>. In each of the methods below the branch of an id that
  \<^verbatim>\<open>SporkID.has_value\<close> rejects calls \<^verbatim>\<open>self.logger.info\<close>, and the lookup of
  the attribute raises \<^verbatim>\<open>AttributeError\<close> before anything else is done.

  \<^verbatim>\<open>set_spork\<close>: the value of an id of the enum is stored and the peer is added to
  \<^verbatim>\<open>from_peers\<close>. The result is the exception, if one was raised, and the table as the
  call left it.
\<close>

definition set_spork ::
  "(int \<Rightarrow> bool) \<Rightarrow> DashSporks \<Rightarrow> int \<Rightarrow> int \<Rightarrow> string \<Rightarrow> error option \<times> DashSporks" where
  "set_spork has_value s spork_id v p =
     (if \<not> has_value spork_id then (Some AttributeError, s)
      else (None, s\<lparr>gathered_sporks := (gathered_sporks s)(spork_id \<mapsto> v),
                     from_peers := insert p (from_peers s)\<rparr>))"

text \<open>
  \<^verbatim>\<open>get_spork_value\<close> and \<^verbatim>\<open>is_spork_active\<close>. After the test of
  \<^verbatim>\<open>has_value\<close> both look the id up in the gathered table, then in the defaults.
  \<^verbatim>\<open>is_spork_active\<close> compares the integer it found with the clock,
  \<^verbatim>\<open>time.time()\<close>; Python compares an integer and a double by their exact values.
\<close>

definition get_spork_value ::
  "(int \<Rightarrow> bool) \<Rightarrow> (SporkID \<Rightarrow> int) \<Rightarrow> DashSporks \<Rightarrow> int \<Rightarrow> error + int option" where
  "get_spork_value has_value val s spork_id =
     (if \<not> has_value spork_id then Inl AttributeError
      else (case gathered_sporks s spork_id of
              None \<Rightarrow> Inr (SPORKS_DEFAULTS val spork_id)
            | Some v \<Rightarrow> Inr (Some v)))"

definition is_spork_active ::
  "(int \<Rightarrow> bool) \<Rightarrow> (SporkID \<Rightarrow> int) \<Rightarrow> DashSporks \<Rightarrow> int \<Rightarrow> double \<Rightarrow> error + bool" where
  "is_spork_active has_value val s spork_id now =
     (if \<not> has_value spork_id then Inl AttributeError
      else (case gathered_sporks s spork_id of
              Some v \<Rightarrow> Inr (seconds v < now)
            | None \<Rightarrow>
                (case SPORKS_DEFAULTS val spork_id of
                   None \<Rightarrow> Inr False
                 | Some v \<Rightarrow> Inr (seconds v < now))))"

text \<open>
  The numbers of the Dash protocol for the members above, and the membership test over them.
  They instantiate the two arguments where a theorem is evaluated at a concrete input; no
  general theorem depends on them.
\<close>

fun dash_spork_value :: "SporkID \<Rightarrow> int" where
  "dash_spork_value SPORK_2_INSTANTSEND_ENABLED = 10001"
| "dash_spork_value SPORK_3_INSTANTSEND_BLOCK_FILTERING = 10002"
| "dash_spork_value SPORK_5_INSTANTSEND_MAX_VALUE = 10004"
| "dash_spork_value SPORK_6_NEW_SIGS = 10005"
| "dash_spork_value SPORK_9_SUPERBLOCKS_ENABLED = 10008"
| "dash_spork_value SPORK_12_RECONSIDER_BLOCKS = 10011"
| "dash_spork_value SPORK_15_DETERMINISTIC_MNS_ENABLED = 10014"
| "dash_spork_value SPORK_16_INSTANTSEND_AUTOLOCKS = 10015"
| "dash_spork_value SPORK_17_QUORUM_DKG_ENABLED = 10016"
| "dash_spork_value SPORK_19_CHAINLOCKS_ENABLED = 10018"
| "dash_spork_value SPORK_20_INSTANTSEND_LLMQ_BASED = 10019"

definition dash_has_value :: "int \<Rightarrow> bool" where
  "dash_has_value i =
     (i \<in> set [10001, 10002, 10004, 10005, 10008, 10011, 10014, 10015, 10016, 10018, 10019])"

subsection \<open>The pool after construction\<close>

text \<open>
  \<^verbatim>\<open>DashNet.__init__\<close>. The arguments are what the constructor reads: the network
  (\<^verbatim>\<open>constants.net.TESTNET\<close>), the ban list file, the outcome of \<^verbatim>\<open>read_conf\<close>
  (static mode and the static peers), the configured \<^verbatim>\<open>dash_max_peers\<close> and the clock.
  The attribute \<^verbatim>\<open>peeers\<close> does not exist yet, and \<^verbatim>\<open>disconnected_static\<close> is
  created empty by \<^verbatim>\<open>_start\<close>.
\<close>

definition DashNet_init ::
  "bool \<Rightarrow> (string \<rightharpoonup> ban_record) \<Rightarrow> bool \<Rightarrow> string list \<Rightarrow> int option \<Rightarrow> double \<Rightarrow> DashNet" where
  "DashNet_init testnet stored_banlist static_mode statics cfg_max_peers now =
     \<lparr>default_port = (if testnet then 19999 else 9999),
      dns_seeds = (if testnet then [''testnet-seed.dashdot.io'']
                   else [''dnsseed.dash.org'', ''dnsseed.dashdot.io'']),
      main_taskgroup = None,
      peers = Map.empty,
      peeers = None,
      connecting = {},
      peers_queue = None,
      banlist = stored_banlist,
      found_peers = {},
      use_static_peers = static_mode,
      static_peers = statics,
      disconnected_static = Map.empty,
      max_peers_attr = (case cfg_max_peers of None \<Rightarrow> MAX_PEERS_DEFAULT | Some n \<Rightarrow> n),
      config_dash_max_peers = cfg_max_peers,
      sporks = DashSporks_init,
      recent_islocks = [],
      recent_islocks_clear = now,
      recent_dsq = [],
      recent_dsq_hashes = []\<rparr>"

subsection \<open>Instant-lock cache\<close>

text \<open>
  \<^verbatim>\<open>clear_recent_islocks(keep_sec)\<close>, with the clock reading \<open>now\<close>; \<open>keep_sec\<close>
  is a Python integer (the default is 900). The two ages are differences of doubles; the
  first is compared with the double \<^verbatim>\<open>keep_sec/15\<close>, the second with the integer
  \<^verbatim>\<open>keep_sec\<close>. The early return leaves the object as it is; otherwise the list is
  filtered and the time of the pass stored. \<open>islock_time\<close> is the component
  \<^verbatim>\<open>x[1]\<close> of an entry.
\<close>

definition islock_time :: "islock_entry \<Rightarrow> double" where
  "islock_time x = fst (snd x)"

definition clear_recent_islocks :: "DashNet \<Rightarrow> int \<Rightarrow> double \<Rightarrow> DashNet" where
  "clear_recent_islocks s keep_sec now =
     (if fsub now (recent_islocks_clear s) < int_truediv keep_sec 15 then s
      else s\<lparr>recent_islocks :=
               filter (\<lambda>x. fsub now (islock_time x) < seconds keep_sec) (recent_islocks s),
             recent_islocks_clear := now\<rparr>)"

text \<open>Whether a call gets past the early return, that is, scans the list.\<close>

definition islocks_scan :: "DashNet \<Rightarrow> int \<Rightarrow> double \<Rightarrow> bool" where
  "islocks_scan s keep_sec now =
     (\<not> fsub now (recent_islocks_clear s) < int_truediv keep_sec 15)"

subsection \<open>Mixing-queue cache\<close>



text \<open>Python's \<^verbatim>\<open>str\<close> of an integer, which the f-string of the fingerprint applies.\<close>

definition digit_char :: "nat \<Rightarrow> char" where
  "digit_char d = ''0123456789'' ! d"

function str_nat :: "nat \<Rightarrow> string" where
  "str_nat n = (if n < 10 then [digit_char n] else str_nat (n div 10) @ [digit_char (n mod 10)])"
  by pat_completeness auto
termination
  by (relation "measure id") auto

declare str_nat.simps [simp del]

definition str_int :: "int \<Rightarrow> string" where
  "str_int i = (if i < 0 then CHR ''-'' # str_nat (nat (- i)) else str_nat (nat i))"






subsection \<open>Hostname validator\<close>

text \<open>
  \<^verbatim>\<open>ALLOWED_HOSTNAME_RE = re.compile(r'(?!-)[A-Z\d-]{1,63}(?<!-)$', re.IGNORECASE)\<close>,
  applied with \<^verbatim>\<open>match\<close>, which anchors the pattern at the start of the label. The pattern
  takes \<open>k\<close> characters of the class, from 1 to 63; the label must not start with a hyphen
  (the lookahead), the last of the \<open>k\<close> characters must not be a hyphen (the lookbehind), and
  \<^verbatim>\<open>$\<close> holds at the end of the label or just before a newline that ends it.
\<close>

definition allowed_char :: "char \<Rightarrow> bool" where
  "allowed_char c =
     (c \<in> set ''ABCDEFGHIJKLMNOPQRSTUVWXYZabcdefghijklmnopqrstuvwxyz0123456789-'')"

definition re_match_label :: "string \<Rightarrow> bool" where
  "re_match_label x =
     list_ex (\<lambda>k. k \<le> length x
                \<and> hd x \<noteq> CHR ''-''
                \<and> list_all allowed_char (take k x)
                \<and> last (take k x) \<noteq> CHR ''-''
                \<and> (drop k x = [] \<or> drop k x = [CHR 0x0A]))
       [1..<64]"

text \<open>Python's \<^verbatim>\<open>str.split(sep)\<close> for a separator of one character.\<close>

fun split_on :: "char \<Rightarrow> string \<Rightarrow> string list" where
  "split_on c [] = [[]]"
| "split_on c (x # xs) =
     (if x = c then [] # split_on c xs
      else (case split_on c xs of [] \<Rightarrow> [[x]] | w # ws \<Rightarrow> (x # w) # ws))"

text \<open>
  \<^verbatim>\<open>is_valid_hostname\<close>. The index \<^verbatim>\<open>hostname[-1]\<close> raises \<^verbatim>\<open>IndexError\<close> on the
  empty string.
\<close>

definition is_valid_hostname :: "string \<Rightarrow> error + bool" where
  "is_valid_hostname hostname =
     (if length hostname > 255 then Inr False
      else if hostname = [] then Inl IndexError
      else (let h = (if last hostname = CHR ''.'' then butlast hostname else hostname)
            in Inr (list_all re_match_label (split_on (CHR ''.'') h))))"

subsection \<open>Peer pool\<close>

text \<open>
  A method that can raise returns the exception, if any, together with the object as the
  method left it: an exception does not undo the assignments made before it.
\<close>

type_synonym result = "error option \<times> DashNet"

text \<open>\<^verbatim>\<open>peers_total\<close>: \<^verbatim>\<open>len(self.connecting.union(self.peers))\<close>.\<close>

definition peers_total :: "DashNet \<Rightarrow> int" where
  "peers_total s = int (card (connecting s \<union> dom (peers s)))"

text \<open>
  \<^verbatim>\<open>_start\<close>, after \<^verbatim>\<open>read_conf\<close>, whose outcome is the three arguments. A
  \<^verbatim>\<open>queue.Queue\<close> object is always true, so \<^verbatim>\<open>not self.peers_queue\<close> holds only
  of \<^verbatim>\<open>None\<close>.
\<close>

definition start :: "DashNet \<Rightarrow> bool \<Rightarrow> bool \<Rightarrow> string list \<Rightarrow> result" where
  "start s0 run_dash_net static_mode statics =
     (let s = s0\<lparr>use_static_peers := static_mode, static_peers := statics\<rparr> in
      if \<not> run_dash_net then (None, s)
      else if main_taskgroup s \<noteq> None then (Some AssertionError, s)
      else (let s1 = s\<lparr>main_taskgroup := Some (TaskGroup False)\<rparr> in
            if peers s1 \<noteq> Map.empty then (Some AssertionError, s1)
            else if \<not> (connecting s1 = {} \<and> peers_queue s1 = None) then (Some AssertionError, s1)
            else (None, s1\<lparr>peers_queue := Some [], disconnected_static := Map.empty\<rparr>)))"

text \<open>
  \<^verbatim>\<open>stop\<close>, from the point where \<^verbatim>\<open>wait_for(cancel_remaining(), timeout=2)\<close> has
  returned or raised; the first argument is the object at that point. A timeout and a
  cancellation are caught and logged, so the three outcomes continue alike. The source
  assigns the empty dictionary to \<^verbatim>\<open>self.peeers\<close>. The flag \<^verbatim>\<open>full_shutdown\<close> only
  selects a callback.
\<close>

datatype wait_outcome = Returned | TimeoutError | CancelledError

definition stop :: "DashNet \<Rightarrow> wait_outcome \<Rightarrow> bool \<Rightarrow> DashNet" where
  "stop s outcome full_shutdown =
     (case main_taskgroup s of
        None \<Rightarrow> s
      | Some g \<Rightarrow>
          s\<lparr>main_taskgroup := None,
            peeers := Some Map.empty,
            connecting := {},
            peers_queue := None\<rparr>)"

text \<open>
  \<^verbatim>\<open>_start_peer\<close>. \<^verbatim>\<open>self.peers_queue.put\<close> raises \<^verbatim>\<open>AttributeError\<close> when the
  queue is \<^verbatim>\<open>None\<close>, after the peer was added to \<^verbatim>\<open>connecting\<close>.
\<close>

definition start_peer :: "DashNet \<Rightarrow> string \<Rightarrow> result" where
  "start_peer s p =
     (if p \<notin> dom (peers s) \<and> p \<notin> connecting s then
        (let s1 = s\<lparr>connecting := insert p (connecting s)\<rparr> in
         case peers_queue s1 of
           None \<Rightarrow> (Some AttributeError, s1)
         | Some q \<Rightarrow> (None, s1\<lparr>peers_queue := Some (q @ [p])\<rparr>))
      else (None, s))"

text \<open>
  \<^verbatim>\<open>_close_peer\<close>: the entry is removed when it is this very object.
\<close>

definition close_peer :: "DashNet \<Rightarrow> string \<Rightarrow> DashPeer \<Rightarrow> DashNet" where
  "close_peer s p dash_peer =
     (if map_option ident (peers s p) = Some (ident dash_peer)
      then s\<lparr>peers := (peers s)(p := None)\<rparr> else s)"

definition add_banned_peer :: "DashNet \<Rightarrow> DashPeer \<Rightarrow> double \<Rightarrow> DashNet" where
  "add_banned_peer s dash_peer now =
     s\<lparr>banlist := (banlist s)(peer dash_peer \<mapsto>
          \<lparr>at' = now, msg = ban_msg dash_peer, till = ban_till dash_peer, ua = user_agent dash_peer\<rparr>)\<rparr>"

definition remove_banned_peer :: "DashNet \<Rightarrow> string \<Rightarrow> DashNet" where
  "remove_banned_peer s p =
     (if p \<in> dom (banlist s) then s\<lparr>banlist := (banlist s)(p := None)\<rparr> else s)"

text \<open>
  \<^verbatim>\<open>connection_down\<close>. A static peer gets a reconnect time and is never banned; another
  peer is banned when its \<^verbatim>\<open>ban_msg\<close> is a non-empty string.
\<close>

definition connection_down :: "DashNet \<Rightarrow> DashPeer \<Rightarrow> double \<Rightarrow> DashNet" where
  "connection_down s dash_peer now =
     (let s1 = close_peer s (peer dash_peer) dash_peer in
      if use_static_peers s1 \<and> peer dash_peer \<in> set (static_peers s1)
      then s1\<lparr>disconnected_static := (disconnected_static s1)(peer dash_peer \<mapsto> now)\<rparr>
      else if ban_msg dash_peer \<noteq> None \<and> ban_msg dash_peer \<noteq> Some []
      then add_banned_peer s1 dash_peer now
      else s1)"

text \<open>
  \<^verbatim>\<open>_run_new_peer\<close>, from the point where the wait for \<^verbatim>\<open>dash_peer.ready\<close> has
  returned (\<open>Ready\<close>), has timed out or was cancelled (\<open>NotReady\<close>), or has raised
  another exception (\<open>Failed\<close>), which is not caught. The \<^verbatim>\<open>finally\<close> clause removes
  the peer from \<^verbatim>\<open>connecting\<close> on every path, also when the assertion fails.
\<close>

datatype ready_outcome = Ready | NotReady | Failed

definition run_new_peer :: "DashNet \<Rightarrow> string \<Rightarrow> DashPeer \<Rightarrow> ready_outcome \<Rightarrow> result" where
  "run_new_peer s p dash_peer outcome =
     (case outcome of
        NotReady \<Rightarrow> (None, s\<lparr>connecting := connecting s - {p}\<rparr>)
      | Failed \<Rightarrow> (Some OtherException, s\<lparr>connecting := connecting s - {p}\<rparr>)
      | Ready \<Rightarrow>
          if p \<in> dom (peers s) then (Some AssertionError, s\<lparr>connecting := connecting s - {p}\<rparr>)
          else (None, s\<lparr>peers := (peers s)(p \<mapsto> dash_peer), connecting := connecting s - {p}\<rparr>))"

text \<open>
  \<^verbatim>\<open>random.choice\<close> and \<^verbatim>\<open>random.randint\<close> take their random number as an argument.
  The order in which Python lists a set or a dictionary is not fixed by the language; the
  model lists it in increasing order, and since the index is arbitrary every element can be
  chosen.
\<close>

definition random_choice :: "nat \<Rightarrow> 'a list \<Rightarrow> 'a" where
  "random_choice r xs = xs ! (r mod length xs)"

text \<open>
  \<^verbatim>\<open>get_random_peer\<close>: the key of the chosen peer; \<open>None\<close> while there is no live peer
  (the coroutine sleeps and looks again).
\<close>

definition get_random_peer :: "DashNet \<Rightarrow> nat \<Rightarrow> string option" where
  "get_random_peer s r =
     (let ks = sorted_list_of_set (dom (peers s)) in
      if ks = [] then None else Some (random_choice r ks))"

text \<open>
  \<^verbatim>\<open>find_peers\<close>. \<open>peers_union\<close> is the local variable of that name, the candidates the
  discovery counts. The arguments of \<open>find_peers\<close> are the method \<^verbatim>\<open>is_active\<close> of a
  peer, the answers of the DNS seeds in turn, and the random number; the result is \<open>None\<close>
  while \<^verbatim>\<open>get_random_peer\<close> waits.
\<close>

definition peers_union :: "DashNet \<Rightarrow> string set" where
  "peers_union s = (dom (peers s) \<union> connecting s \<union> found_peers s) - dom (banlist s)"

fun first_answer :: "string list list \<Rightarrow> string list option" where
  "first_answer [] = None"
| "first_answer (new_ips # rest) = (if new_ips \<noteq> [] then Some new_ips else first_answer rest)"

definition find_peers :: "(DashPeer \<Rightarrow> bool) \<Rightarrow> string list list \<Rightarrow> nat \<Rightarrow> DashNet \<Rightarrow> DashNet option" where
  "find_peers is_active answers r s =
     (let peers_union_len = int (card (peers_union s)) in
      if peers_union_len < 2 then
        (case first_answer (take (length (dns_seeds s)) answers) of
           None \<Rightarrow> Some s
         | Some new_ips \<Rightarrow>
             Some (s\<lparr>found_peers := found_peers s
                      \<union> set (map (\<lambda>ip. ip @ '':'' @ str_int (default_port s)) new_ips)\<rparr>))
      else if peers_union_len < max_peers s then
        (case get_random_peer s r of
           None \<Rightarrow> None
         | Some k \<Rightarrow>
             (case peers s k of
                None \<Rightarrow> Some s
              | Some p \<Rightarrow>
                  if \<not> getaddr_done p \<and> \<not> is_active p
                  then Some (s\<lparr>peers := (peers s)(k \<mapsto> p\<lparr>getaddr_done := True\<rparr>)\<rparr>)
                  else Some s))
      else Some s)"

text \<open>
  \<^verbatim>\<open>queue_peers\<close>, static mode: the loop over \<^verbatim>\<open>static_peers\<close>. \<open>clock i\<close> is the
  reading of \<^verbatim>\<open>time.time()\<close> in iteration \<open>i\<close>. A reconnect time that is zero counts as
  absent (\<^verbatim>\<open>if disconnected_time:\<close>); the time since the disconnect is a difference of
  doubles, compared with the integer 10. The ban list is not read.
\<close>

fun queue_static :: "(nat \<Rightarrow> double) \<Rightarrow> nat \<Rightarrow> DashNet \<Rightarrow> string list \<Rightarrow> result" where
  "queue_static clock i s [] = (None, s)"
| "queue_static clock i s (p # ps) =
     (if peers_total s \<ge> max_peers s then (None, s)
      else if p \<notin> dom (peers s) \<and> p \<notin> connecting s then
        (let now = clock i;
             disconnected_time = disconnected_static s p in
         if disconnected_time \<noteq> None \<and> disconnected_time \<noteq> Some 0
              \<and> fsub now (the disconnected_time) < seconds 10
         then queue_static clock (Suc i) s ps
         else
           (let s1 = (if disconnected_time \<noteq> None \<and> disconnected_time \<noteq> Some 0
                      then s\<lparr>disconnected_static := (disconnected_static s)(p := None)\<rparr>
                      else s) in
            case start_peer s1 p of
              (Some e, s2) \<Rightarrow> (Some e, s2)
            | (None, s2) \<Rightarrow> queue_static clock (Suc i) s2 ps))
      else queue_static clock (Suc i) s ps)"

text \<open>
  \<^verbatim>\<open>queue_peers\<close>, dynamic mode. \<open>available_peers\<close> is the local variable
  \<^verbatim>\<open>available\<close>; \<open>queue_dynamic_pass\<close> is one pass of the loop body, up to the sleep;
  \<open>queue_dynamic\<close> runs the passes one after the other, one random number for each, and is
  \<open>None\<close> when the numbers run out before the pool is full (the loop has no other exit).
  Between two passes the coroutine sleeps and other tasks run; a pass itself is not
  interrupted.
\<close>

definition available_peers :: "DashNet \<Rightarrow> string set" where
  "available_peers s =
     (let inavailable = connecting s \<union> dom (peers s);
          available = found_peers s - inavailable
      in available - dom (banlist s))"

definition queue_dynamic_pass :: "nat \<Rightarrow> DashNet \<Rightarrow> result" where
  "queue_dynamic_pass r s =
     (if available_peers s \<noteq> {}
      then start_peer s (random_choice r (sorted_list_of_set (available_peers s)))
      else (None, s))"

fun queue_dynamic :: "nat list \<Rightarrow> DashNet \<Rightarrow> result option" where
  "queue_dynamic [] s = (if peers_total s < max_peers s then None else Some (None, s))"
| "queue_dynamic (r # rs) s =
     (if peers_total s < max_peers s then
        (case queue_dynamic_pass r s of
           (Some e, s1) \<Rightarrow> Some (Some e, s1)
         | (None, s1) \<Rightarrow> queue_dynamic rs s1)
      else Some (None, s))"

definition queue_peers :: "(nat \<Rightarrow> double) \<Rightarrow> nat list \<Rightarrow> DashNet \<Rightarrow> result option" where
  "queue_peers clock rs s =
     (if peers_total s \<ge> max_peers s then Some (None, s)
      else if use_static_peers s then Some (queue_static clock 0 s (static_peers s))
      else queue_dynamic rs s)"

subsection \<open>Spork quorum\<close>

text \<open>
  \<^verbatim>\<open>_gather_sporks\<close> computes \<^verbatim>\<open>gather_cnt = round(peers_cnt * 0.51)\<close> for more than two
  peers. Python converts \<^verbatim>\<open>peers_cnt\<close> to a double (exactly, below \<open>2^53\<close>), multiplies
  in IEEE 754 binary64 with rounding to nearest, ties to even, and \<^verbatim>\<open>round\<close> takes the
  double to the nearest integer, ties to even. The doubles that occur here are multiples of
  \<open>2^-53\<close> and are represented, in this subsection, by their numerators: \<open>N\<close> stands
  for \<open>N / 2^53\<close>. The literal \<^verbatim>\<open>0.51\<close> is the double
  \<open>4593671619917906 / 2^53\<close>. The rounding of the product is \<open>round_53\<close>.
\<close>

definition double_0_51 :: int where
  "double_0_51 = 4593671619917906"

text \<open>The product of the integer \<open>n\<close> and the double \<open>m / 2^53\<close>.\<close>

definition float_mul :: "int \<Rightarrow> int \<Rightarrow> int" where
  "float_mul n m = round_53 (n * m)"

text \<open>\<^verbatim>\<open>round(x)\<close> of the double \<open>N / 2^53\<close>.\<close>

definition py_round :: "int \<Rightarrow> int" where
  "py_round N =
     (let f = N div 2 ^ 53;
          r = N mod 2 ^ 53
      in if r > 2 ^ 52 \<or> (r = 2 ^ 52 \<and> odd f) then f + 1 else f)"

definition gather_cnt :: "int \<Rightarrow> int" where
  "gather_cnt peers_cnt =
     (if peers_cnt \<le> 2 then peers_cnt else py_round (float_mul peers_cnt double_0_51))"

text \<open>
  One pass of the loop of \<^verbatim>\<open>_gather_sporks\<close>, up to its sleep; \<open>None\<close> while
  \<^verbatim>\<open>get_random_peer\<close> waits.
\<close>

definition gather_sporks_pass :: "nat \<Rightarrow> DashNet \<Rightarrow> DashNet option" where
  "gather_sporks_pass r s =
     (let peers_cnt = int (card (dom (peers s))) in
      if peers_cnt = 0 then Some s
      else if int (card (from_peers (sporks s))) < gather_cnt peers_cnt then
        (case get_random_peer s r of
           None \<Rightarrow> None
         | Some k \<Rightarrow>
             (case peers s k of
                None \<Rightarrow> Some s
              | Some p \<Rightarrow>
                  if \<not> sporks_done p
                  then Some (s\<lparr>peers := (peers s)(k \<mapsto> p\<lparr>sporks_done := True\<rparr>)\<rparr>)
                  else Some s))
      else Some s)"

text \<open>
  The nearest integer to \<open>51 n / 100\<close>, ties to even: what \<^verbatim>\<open>round\<close> gives on the exact
  product.
\<close>

definition round_half_even_51 :: "int \<Rightarrow> int" where
  "round_half_even_51 n =
     (let q = (51 * n) div 100;
          r = (51 * n) mod 100
      in if r > 50 \<or> (r = 50 \<and> odd q) then q + 1 else q)"

subsection \<open>The pool's atomic steps\<close>

text \<open>
  The pieces of the methods above that run without a suspension point, as the steps of the
  pool: between two of them the orchestrator is quiescent. \<open>QueueDynamicPass\<close> is one
  pass of the dynamic loop of \<^verbatim>\<open>queue_peers\<close> under the loop's test; \<open>QueuePeers\<close> is
  a whole call that has returned (a call that has not is a sequence of passes).
\<close>

datatype pool_op =
    Start bool bool "string list"
  | Stop wait_outcome bool
  | StartPeer string
  | RunNewPeer string DashPeer ready_outcome
  | ClosePeer string DashPeer
  | ConnectionDown DashPeer double
  | RemoveBanned string
  | FindPeers "DashPeer \<Rightarrow> bool" "string list list" nat
  | QueueDynamicPass nat
  | QueuePeers "nat \<Rightarrow> double" "nat list"

fun pool_step :: "pool_op \<Rightarrow> DashNet \<Rightarrow> DashNet" where
  "pool_step (Start run_dash_net static_mode statics) s = snd (start s run_dash_net static_mode statics)"
| "pool_step (Stop outcome full_shutdown) s = stop s outcome full_shutdown"
| "pool_step (StartPeer p) s = snd (start_peer s p)"
| "pool_step (RunNewPeer p dash_peer outcome) s = snd (run_new_peer s p dash_peer outcome)"
| "pool_step (ClosePeer p dash_peer) s = close_peer s p dash_peer"
| "pool_step (ConnectionDown dash_peer now) s = connection_down s dash_peer now"
| "pool_step (RemoveBanned p) s = remove_banned_peer s p"
| "pool_step (FindPeers is_active answers r) s =
     (case find_peers is_active answers r s of None \<Rightarrow> s | Some s1 \<Rightarrow> s1)"
| "pool_step (QueueDynamicPass r) s =
     (if peers_total s < max_peers s then snd (queue_dynamic_pass r s) else s)"
| "pool_step (QueuePeers clock rs) s =
     (case queue_peers clock rs s of None \<Rightarrow> s | Some res \<Rightarrow> snd res)"

definition run_pool :: "DashNet \<Rightarrow> pool_op list \<Rightarrow> DashNet" where
  "run_pool s steps = foldl (\<lambda>s1 a. pool_step a s1) s steps"

text \<open>No address is both live and connecting.\<close>

definition pool_inv :: "DashNet \<Rightarrow> bool" where
  "pool_inv s = (dom (peers s) \<inter> connecting s = {})"

text \<open>The addresses in the pending-connect queue.\<close>

definition queued :: "DashNet \<Rightarrow> string set" where
  "queued s = (case peers_queue s of None \<Rightarrow> {} | Some q \<Rightarrow> set q)"

subsection \<open>Concrete inputs\<close>

text \<open>The states and messages at which the theorems below are evaluated.\<close>

text \<open>
  A pool constructed at 1572566400 seconds that has since received two instant locks. Then
  the doubles 900.1343642441124 and 0.13436424411240122, and a pool constructed at the epoch
  whose one instant lock has the second of them as its time.
\<close>

definition islocks_example :: DashNet where
  "islocks_example =
     (DashNet_init False Map.empty False [] None (seconds 1572566400))
       \<lparr>recent_islocks := [(''tx1'', seconds 1572566500, ''islock1'', ''quorum'', ''id1''),
                           (''tx2'', seconds 1572567350, ''islock2'', ''quorum'', ''id2'')]\<rparr>"

definition epoch_clock :: double where
  "epoch_clock = 7917665600377271 * 2 ^ 1031"

definition epoch_islock_time :: double where
  "epoch_islock_time = 1210245519433057 * 2 ^ 1021"

definition islocks_epoch_example :: DashNet where
  "islocks_epoch_example =
     (DashNet_init False Map.empty False [] None 0)
       \<lparr>recent_islocks := [(''tx1'', epoch_islock_time, ''islock1'', ''quorum'', ''id1'')]\<rparr>"





text \<open>A clock that reads 100 seconds at every iteration of the static loop.\<close>

definition example_clock :: "nat \<Rightarrow> double" where
  "example_clock i = seconds 100"

definition peer_a :: DashPeer where
  "peer_a = \<lparr>ident = 1, peer = ''1.2.3.4:9999'', ban_msg = None, ban_till = None,
     user_agent = ''/Dash Core:0.14.0.3/'', getaddr_done = False, sporks_done = False\<rparr>"

definition ban_a :: ban_record where
  "ban_a = \<lparr>at' = seconds 1572566400, msg = Some ''misbehaving'', till = None,
     ua = ''/Dash Core:0.14.0.3/''\<rparr>"

text \<open>
  A started pool with one live peer, one address connecting and both still in the queue.
\<close>

definition started_example :: DashNet where
  "started_example =
     snd (start_peer
       (snd (run_new_peer
         (snd (start_peer
           (snd (start (DashNet_init False Map.empty False [] None 0) True False []))
           ''1.2.3.4:9999''))
         ''1.2.3.4:9999'' peer_a Ready))
       ''5.6.7.8:9999'')"

text \<open>
  A started pool in static mode whose one static peer is in the ban list, and a started pool
  in dynamic mode after the DNS seed answered with three addresses, one of them banned.
\<close>

definition static_banned_example :: DashNet where
  "static_banned_example =
     snd (start (DashNet_init False [''1.2.3.4:9999'' \<mapsto> ban_a] True [''1.2.3.4:9999''] None 0)
            True True [''1.2.3.4:9999''])"

definition dynamic_banned_example :: DashNet where
  "dynamic_banned_example =
     the (find_peers (\<lambda>p. False) [[''1.2.3.4'', ''5.6.7.8'', ''9.9.9.9'']] 0
       (snd (start (DashNet_init False [''1.2.3.4:9999'' \<mapsto> ban_a] False [] None 0)
              True False [])))"

definition pool_steps_example :: "pool_op list" where
  "pool_steps_example =
     [Start True False [], StartPeer ''1.2.3.4:9999'', StartPeer ''5.6.7.8:9999'',
      RunNewPeer ''1.2.3.4:9999'' peer_a Ready, StartPeer ''1.2.3.4:9999'']"

section \<open>Theorems\<close>

subsection \<open>Capacity accessor\<close>

text \<open>
  C5. For every integer \<open>n\<close> the setter of \<^verbatim>\<open>max_peers\<close> stores \<open>n\<close> clamped to
  the interval from 2 to 8: 2 for an input below 2, 8 for an input above 8, and the input
  itself otherwise; the getter then returns the stored value, and the same value is written
  to the configuration. In particular 0 gives 2, 100 gives 8 and 5 gives 5.
\<close>

theorem max_peers_setter_clamps:
  "max_peers (max_peers_setter s n) = (if n < 2 then 2 else if 8 < n then 8 else n)
   \<and> max_peers (max_peers_setter s n) = max 2 (min 8 n)
   \<and> config_dash_max_peers (max_peers_setter s n) = Some (max_peers (max_peers_setter s n))
   \<and> max_peers (max_peers_setter s 0) = 2
   \<and> max_peers (max_peers_setter s 100) = 8
   \<and> max_peers (max_peers_setter s 5) = 5"
  by (simp add: max_peers_def max_peers_setter_def MIN_PEERS_LIMIT_def MAX_PEERS_LIMIT_def Let_def)

subsection \<open>Spork table\<close>

text \<open>
  C3. As stated the claim fails: \<^verbatim>\<open>set_spork\<close> stores nothing for an id that is not a value
  of \<^verbatim>\<open>SporkID\<close>. With the protocol's numbers the id 0 is unknown:
  \<^verbatim>\<open>set_spork(0, 5, peer)\<close> on a fresh table ends in the \<^verbatim>\<open>AttributeError\<close> of the
  logging call and leaves the table as it was, with no value stored for the id.
\<close>

theorem set_spork_unknown_id_counterexample:
  "\<not> dash_has_value 0
   \<and> set_spork dash_has_value DashSporks_init 0 5 ''1.2.3.4:9999''
       = (Some AttributeError, DashSporks_init)
   \<and> gathered_sporks (snd (set_spork dash_has_value DashSporks_init 0 5 ''1.2.3.4:9999'')) 0 = None
   \<and> gathered_sporks (snd (set_spork dash_has_value DashSporks_init 0 5 ''1.2.3.4:9999'')) 0 \<noteq> Some 5"
  by (simp add: set_spork_def dash_has_value_def DashSporks_init_def)

text \<open>
  C3, amended. For every id that \<^verbatim>\<open>SporkID.has_value\<close> accepts, \<^verbatim>\<open>set_spork\<close>
  returns normally, overwrites the gathered value of that id with the new value, whatever was
  stored and whatever other peers reported (the last write wins), and adds the source peer to
  the contributor set. For every other id the gathered table is unchanged.
\<close>

theorem set_spork_known_overwrites:
  "(has_value i \<longrightarrow>
      set_spork has_value s i v p
        = (None, s\<lparr>gathered_sporks := (gathered_sporks s)(i \<mapsto> v),
                    from_peers := insert p (from_peers s)\<rparr>)
      \<and> gathered_sporks (snd (set_spork has_value s i v p)) i = Some v
      \<and> from_peers (snd (set_spork has_value s i v p)) = insert p (from_peers s))
   \<and> (\<not> has_value i \<longrightarrow>
        gathered_sporks (snd (set_spork has_value s i v p)) = gathered_sporks s)"
  by (simp add: set_spork_def)

theorem set_spork_known_overwrites_witness:
  "dash_has_value 10001
   \<and> gathered_sporks
        (snd (set_spork dash_has_value
           (snd (set_spork dash_has_value DashSporks_init 10001 0 ''1.2.3.4:9999''))
           10001 4070908800 ''5.6.7.8:9999'')) 10001 = Some 4070908800
   \<and> from_peers
        (snd (set_spork dash_has_value
           (snd (set_spork dash_has_value DashSporks_init 10001 0 ''1.2.3.4:9999''))
           10001 4070908800 ''5.6.7.8:9999'')) = {''1.2.3.4:9999'', ''5.6.7.8:9999''}
   \<and> \<not> dash_has_value 7
   \<and> gathered_sporks (snd (set_spork dash_has_value DashSporks_init 7 1 ''1.2.3.4:9999''))
       = Map.empty"
  using set_spork_known_overwrites [of dash_has_value 10001
      "snd (set_spork dash_has_value DashSporks_init 10001 0 ''1.2.3.4:9999'')"
      4070908800 "''5.6.7.8:9999''"]
    set_spork_known_overwrites [of dash_has_value 10001 DashSporks_init 0 "''1.2.3.4:9999''"]
    set_spork_known_overwrites [of dash_has_value 7 DashSporks_init 1 "''1.2.3.4:9999''"]
  by (auto simp add: dash_has_value_def DashSporks_init_def)

text \<open>
  For an id that \<^verbatim>\<open>SporkID.has_value\<close> accepts, \<^verbatim>\<open>get_spork_value\<close> returns the
  gathered value if there is one, else the value of \<^verbatim>\<open>SPORKS_DEFAULTS\<close> if there is one,
  and \<^verbatim>\<open>is_spork_active\<close> returns true exactly when that value is less than the clock
  reading, and false when there is none.
\<close>

lemma is_spork_active_accepted:
  "has_value i \<Longrightarrow>
     get_spork_value has_value val s i
       = Inr (case gathered_sporks s i of None \<Rightarrow> SPORKS_DEFAULTS val i | Some v \<Rightarrow> Some v)
     \<and> is_spork_active has_value val s i t
       = Inr (case (case gathered_sporks s i of None \<Rightarrow> SPORKS_DEFAULTS val i | Some v \<Rightarrow> Some v) of
                None \<Rightarrow> False | Some v \<Rightarrow> seconds v < t)"
  by (simp add: is_spork_active_def get_spork_value_def split: option.splits)

text \<open>
  C6. The claim fails on the code for an unknown id. With the protocol's numbers the id 7 is
  not a value of \<^verbatim>\<open>SporkID\<close> and has neither a gathered nor a default value on a fresh
  table; \<^verbatim>\<open>is_spork_active(7)\<close> does not return false but ends in the
  \<^verbatim>\<open>AttributeError\<close> of the logging call, and so does \<^verbatim>\<open>get_spork_value(7)\<close>.
\<close>

theorem is_spork_active_unknown_id_raises:
  "\<not> dash_has_value 7
   \<and> gathered_sporks DashSporks_init 7 = None
   \<and> SPORKS_DEFAULTS dash_spork_value 7 = None
   \<and> is_spork_active dash_has_value dash_spork_value DashSporks_init 7 (seconds 1572566400)
       = Inl AttributeError
   \<and> is_spork_active dash_has_value dash_spork_value DashSporks_init 7 (seconds 1572566400)
       \<noteq> Inr False
   \<and> get_spork_value dash_has_value dash_spork_value DashSporks_init 7 = Inl AttributeError"
  by (simp add: is_spork_active_def get_spork_value_def dash_has_value_def DashSporks_init_def
       SPORKS_DEFAULTS_def)

subsection \<open>Spork quorum\<close>

text \<open>
  The double product is within one part in \<open>2^53\<close> of the exact product, and \<^verbatim>\<open>round\<close>
  returns \<open>k\<close> for a double strictly between \<open>k - 1/2\<close> and \<open>k + 1/2\<close>.
\<close>

lemma round_53_error:
  assumes "0 < N"
  shows "2 ^ 53 * \<bar>round_53 N - N\<bar> \<le> N"
proof (cases "bitlen N \<le> 53")
  case True
  then show ?thesis using assms by (simp add: round_53_def)
next
  case False
  define s where "s = nat (bitlen N - 53)"
  define h :: int where "h = 2 ^ (s - 1)"
  define q where "q = N div 2 ^ s"
  define r where "r = N mod 2 ^ s"
  have s1: "1 \<le> s" using False by (simp add: s_def)
  have pow_s: "(2::int) ^ s = 2 * h"
    using s1 by (simp add: h_def power_eq_if)
  have "nat (bitlen N - 1) = s + 52"
    using False by (simp add: s_def)
  then have "(2::int) ^ (s + 52) \<le> N"
    using bitlen_bounds [OF assms] by simp
  moreover have "(2::int) ^ (s + 52) = 2 ^ 53 * h"
    using pow_s by (simp add: power_add)
  ultimately have big: "2 ^ 53 * h \<le> N" by simp
  have hpos: "0 < h" by (simp add: h_def)
  have "N = N div 2 ^ s * 2 ^ s + N mod 2 ^ s"
    by (rule div_mult_mod_eq [symmetric])
  then have split: "N = q * (2 * h) + r"
    by (simp only: q_def r_def pow_s)
  have r0: "0 \<le> r" and r1: "r < 2 * h"
    unfolding r_def using hpos pow_s by simp_all
  have val0: "round_53 N =
      (if N mod 2 ^ s > 2 ^ (s - 1) \<or> (N mod 2 ^ s = 2 ^ (s - 1) \<and> odd (N div 2 ^ s))
       then N div 2 ^ s + 1 else N div 2 ^ s) * 2 ^ s"
    unfolding round_53_def Let_def s_def using False by (simp only: if_False)
  have val: "round_53 N = (if r > h \<or> (r = h \<and> odd q) then q + 1 else q) * 2 ^ s"
    unfolding q_def r_def h_def by (rule val0)
  have "\<bar>round_53 N - N\<bar> \<le> h"
  proof (cases "r > h \<or> (r = h \<and> odd q)")
    case True
    then have "round_53 N = (q + 1) * (2 * h)" using val pow_s by simp
    then have "round_53 N - N = 2 * h - r" using split by (simp add: algebra_simps)
    then show ?thesis using True r1 by auto
  next
    case False
    then have "round_53 N = q * (2 * h)" using val pow_s by auto
    then have "round_53 N - N = - r" using split by (simp add: algebra_simps)
    then show ?thesis using False r0 by auto
  qed
  then have "2 ^ 53 * \<bar>round_53 N - N\<bar> \<le> 2 ^ 53 * h" by simp
  then show ?thesis using big by linarith
qed

lemma py_round_between:
  assumes "(2 * k - 1) * 2 ^ 52 < N" and "N < (2 * k + 1) * 2 ^ 52"
  shows "py_round N = k"
proof -
  define c :: int where "c = 2 ^ 52"
  define f where "f = N div 2 ^ 53"
  define r where "r = N mod 2 ^ 53"
  have cpos: "0 < c" by (simp add: c_def)
  have p53: "(2::int) ^ 53 = 2 * c" by (simp add: c_def)
  have "N = N div 2 ^ 53 * 2 ^ 53 + N mod 2 ^ 53"
    by (rule div_mult_mod_eq [symmetric])
  then have split: "N = f * (2 * c) + r"
    by (simp only: f_def r_def p53)
  have r0: "0 \<le> r" and r1: "r < 2 * c"
    unfolding r_def p53 using cpos by simp_all
  have a: "(2 * k - 1) * c < N" and b: "N < (2 * k + 1) * c"
    using assms by (simp_all add: c_def)
  have val: "py_round N = (if r > c \<or> (r = c \<and> odd f) then f + 1 else f)"
    by (simp add: py_round_def Let_def f_def r_def c_def)
  show ?thesis
  proof (cases "r > c")
    case True
    have "(2 * k - 1) * c < (2 * f + 2) * c"
      using a split r1 by (simp add: algebra_simps)
    then have u: "2 * k - 1 < 2 * f + 2"
      using cpos by (simp only: mult_less_cancel_right_pos)
    have "(2 * f + 1) * c < (2 * k + 1) * c"
      using b split True by (simp add: algebra_simps)
    then have l: "2 * f + 1 < 2 * k + 1"
      using cpos by (simp only: mult_less_cancel_right_pos)
    have "f + 1 = k" using u l by linarith
    then show ?thesis using True val by simp
  next
    case False
    have ne: "r \<noteq> c"
    proof
      assume rc: "r = c"
      have "N = (2 * f + 1) * c" using split rc by (simp add: algebra_simps)
      with a b have "2 * k - 1 < 2 * f + 1" and "2 * f + 1 < 2 * k + 1"
        using cpos by (simp_all add: mult_less_cancel_right_pos)
      then show False by presburger
    qed
    have "(2 * k - 1) * c < (2 * f + 1) * c"
      using a split False ne by (simp add: algebra_simps)
    then have u: "2 * k - 1 < 2 * f + 1"
      using cpos by (simp only: mult_less_cancel_right_pos)
    have "(2 * f) * c < (2 * k + 1) * c"
      using b split r0 by (simp add: algebra_simps)
    then have l: "2 * f < 2 * k + 1"
      using cpos by (simp only: mult_less_cancel_right_pos)
    have "f = k" using u l by linarith
    then show ?thesis using False ne val by simp
  qed
qed

lemma gather_no_tie:
  assumes n3: "3 \<le> n" and nb: "n < 2 ^ 46" and nt: "(51 * n) mod 100 \<noteq> 50"
  shows "py_round (float_mul n double_0_51) = (51 * n + 50) div 100"
proof -
  define N where "N = n * double_0_51"
  define N' where "N' = round_53 N"
  define k where "k = (51 * n + 50) div 100"
  define m where "m = (51 * n + 50) mod 100"
  have Npos: "0 < N" using n3 by (simp add: N_def double_0_51_def)
  have err: "9007199254740992 * \<bar>N' - N\<bar> \<le> N"
    using round_53_error [OF Npos] by (simp add: N'_def)
  have hundred: "100 * N = 459367161991790600 * n"
    by (simp add: N_def double_0_51_def)
  have km: "51 * n + 50 = 100 * k + m"
    unfolding k_def m_def by simp
  have m0: "0 \<le> m" and m1: "m < 100"
    unfolding m_def by simp_all
  have mne: "m \<noteq> 0"
  proof
    assume "m = 0"
    then have e: "51 * n = 50 + (k - 1) * 100" using km by simp
    have "(50 + (k - 1) * 100) mod 100 = (50::int) mod 100" by (rule mod_mult_self1)
    then have "(51 * n) mod 100 = 50" by (simp only: e) simp
    then show False using nt by simp
  qed
  have nb': "n < 70368744177664" using nb by simp
  have "9007199254740992 * (N - N') \<le> 9007199254740992 * \<bar>N' - N\<bar>"
    by (intro mult_left_mono) simp_all
  then have "9007199254740992 * (N - N') \<le> N"
    using err by (rule order_trans)
  then have e1: "9007199254740992 * N - 9007199254740992 * N' \<le> N"
    by (simp add: algebra_simps)
  have "9007199254740992 * (N' - N) \<le> 9007199254740992 * \<bar>N' - N\<bar>"
    by (intro mult_left_mono) simp_all
  then have "9007199254740992 * (N' - N) \<le> N"
    using err by (rule order_trans)
  then have e2: "9007199254740992 * N' - 9007199254740992 * N \<le> N"
    by (simp add: algebra_simps)
  have m1': "1 \<le> m" using m0 mne by simp
  have lo0: "9007199254740992 * k - 4503599627370496 < N'"
    using e1 hundred km m1' n3 nb' by linarith
  have hi0: "N' < 9007199254740992 * k + 4503599627370496"
    using e2 hundred km m1 n3 nb' by linarith
  have lo: "(2 * k - 1) * 4503599627370496 < N'"
    using lo0 by (simp add: algebra_simps)
  have hi: "N' < (2 * k + 1) * 4503599627370496"
    using hi0 by (simp add: algebra_simps)
  have "py_round N' = k"
    using lo hi by (intro py_round_between) simp_all
  then show ?thesis
    by (simp add: N'_def N_def k_def float_mul_def)
qed

text \<open>
  When \<open>51 n / 100\<close> is half an odd integer, \<open>n\<close> is \<open>100 j + 50\<close>, the double product
  is that half-integer exactly, and \<^verbatim>\<open>round\<close> takes it to the even neighbour.
\<close>

lemma round_53_exact_part:
  assumes s1: "1 \<le> s" and bl: "bitlen N = int s + 53"
    and N: "N = e + Q * 2 ^ s" and e0: "0 \<le> e" and eh: "e < 2 ^ (s - 1)"
  shows "round_53 N = Q * 2 ^ s"
proof -
  have hs: "(2::int) ^ (s - 1) < 2 ^ s"
    using s1 by (simp add: power_strict_increasing)
  have es: "e < 2 ^ s" using eh hs by linarith
  have d: "N div 2 ^ s = Q"
    unfolding N using e0 es by simp
  have m: "N mod 2 ^ s = e"
    unfolding N using e0 es by simp
  have ns: "nat (bitlen N - 53) = s" using bl by simp
  have "\<not> bitlen N \<le> 53" using bl s1 by simp
  then have "round_53 N =
      (if N mod 2 ^ s > 2 ^ (s - 1) \<or> (N mod 2 ^ s = 2 ^ (s - 1) \<and> odd (N div 2 ^ s))
       then N div 2 ^ s + 1 else N div 2 ^ s) * 2 ^ s"
    unfolding round_53_def Let_def ns by (simp only: if_False)
  then show ?thesis
    unfolding d m using eh by simp
qed

lemma py_round_tie:
  assumes "0 \<le> f"
  shows "py_round ((2 * f + 1) * 2 ^ 52) = (if odd f then f + 1 else f)"
proof -
  have eq: "(2 * f + 1) * 2 ^ 52 = 4503599627370496 + f * (2 ^ 53 :: int)" by simp
  have d: "((2 * f + 1) * 2 ^ 52) div (2 ^ 53 :: int) = f"
    unfolding eq by simp
  have m: "((2 * f + 1) * 2 ^ 52) mod (2 ^ 53 :: int) = 2 ^ 52"
    unfolding eq by simp
  show ?thesis
    unfolding py_round_def Let_def d m by simp
qed

lemma gather_tie:
  assumes j0: "0 \<le> j" and nb: "100 * j + 50 < 2 ^ 46"
  shows "py_round (float_mul (100 * j + 50) double_0_51) = (if even j then 51 * j + 26 else 51 * j + 25)"
proof -
  define N where "N = (100 * j + 50) * double_0_51"
  define e where "e = 8 * j + 4"
  define s where "s = nat (bitlen N - 53)"
  define h :: int where "h = 2 ^ (s - 1)"
  have Ne: "N = e + (102 * j + 51) * 2 ^ 52"
    by (simp add: N_def e_def double_0_51_def algebra_simps)
  have Npos: "0 < N" using j0 by (simp add: N_def double_0_51_def)
  have lo57: "(2::int) ^ 57 \<le> N" using j0 by (simp add: N_def double_0_51_def)
  have hi99: "N < 2 ^ 99"
  proof -
    have "100 * j + 50 < (70368744177664::int)" using nb by simp
    then have "N < 70368744177664 * 4593671619917906"
      by (simp add: N_def double_0_51_def)
    then show ?thesis by simp
  qed
  have b1: "2 ^ nat (bitlen N - 1) \<le> N" and b2: "N < 2 ^ nat (bitlen N)"
    using bitlen_bounds [OF Npos] by simp_all
  have "(2::int) ^ 57 < 2 ^ nat (bitlen N)" using lo57 b2 by linarith
  then have L1: "57 < nat (bitlen N)" by (rule power_less_imp_less_exp [rotated]) simp
  have "(2::int) ^ nat (bitlen N - 1) < 2 ^ 99" using b1 hi99 by linarith
  then have L2: "nat (bitlen N - 1) < 99" by (rule power_less_imp_less_exp [rotated]) simp
  have s5: "5 \<le> s" and s46: "s \<le> 46" using L1 L2 by (simp_all add: s_def)
  have bl: "bitlen N = int s + 53" using L1 by (simp add: s_def)
  have nL: "nat (bitlen N) = (s - 1) + 54" using bl s5 by simp
  have "N < h * 2 ^ 54"
    using b2 unfolding nL power_add h_def .
  moreover have "(102 * j + 51) * 2 ^ 52 \<le> N" using Ne j0 by (simp add: e_def)
  ultimately have "(102 * j + 51) * 4503599627370496 < h * 18014398509481984" by simp
  then have eh: "e < h" using j0 by (simp add: e_def)
  have e0: "0 \<le> e" using j0 by (simp add: e_def)
  have p52: "(2::int) ^ 52 = 2 ^ (52 - s) * 2 ^ s"
    using s46 by (simp add: power_add [symmetric])
  have NQ: "N = e + ((102 * j + 51) * 2 ^ (52 - s)) * 2 ^ s"
    unfolding Ne p52 by (simp add: algebra_simps)
  have "round_53 N = ((102 * j + 51) * 2 ^ (52 - s)) * 2 ^ s"
    using s5 bl NQ e0 eh unfolding h_def by (intro round_53_exact_part) simp_all
  then have r: "round_53 N = (2 * (51 * j + 25) + 1) * 2 ^ 52"
    unfolding p52 by (simp add: algebra_simps)
  have "py_round (round_53 N) = (if odd (51 * j + 25) then 51 * j + 25 + 1 else 51 * j + 25)"
    unfolding r using j0 by (intro py_round_tie) simp
  then show ?thesis
    by (simp add: float_mul_def N_def)
qed

lemma round_half_even_51_tie:
  "round_half_even_51 (100 * j + 50) = (if even j then 51 * j + 26 else 51 * j + 25)"
proof -
  have eq: "51 * (100 * j + 50) = 50 + (51 * j + 25) * (100::int)" by simp
  have "(50 + (51 * j + 25) * 100) div (100::int) = (51 * j + 25) + 50 div 100"
    by (rule div_mult_self1) simp
  then have d: "(51 * (100 * j + 50)) div (100::int) = 51 * j + 25"
    unfolding eq by simp
  have "(50 + (51 * j + 25) * 100) mod (100::int) = 50 mod 100"
    by (rule mod_mult_self1)
  then have m: "(51 * (100 * j + 50)) mod (100::int) = 50"
    unfolding eq by simp
  show ?thesis
    unfolding round_half_even_51_def Let_def d m by simp
qed

lemma round_half_even_51_no_tie:
  assumes "(51 * n) mod 100 \<noteq> 50"
  shows "round_half_even_51 n = (51 * n + 50) div 100"
proof -
  define q where "q = (51 * n) div 100"
  define r where "r = (51 * n) mod 100"
  have split: "51 * n = q * 100 + r" unfolding q_def r_def by simp
  have r0: "0 \<le> r" and r1: "r < 100" unfolding r_def by simp_all
  have ne: "r \<noteq> 50" using assms by (simp add: r_def)
  have val: "round_half_even_51 n = (if r > 50 then q + 1 else q)"
    using ne by (simp add: round_half_even_51_def Let_def q_def r_def)
  show ?thesis
  proof (cases "r > 50")
    case True
    have "51 * n + 50 = (r - 50) + (q + 1) * 100" using split by simp
    moreover have "((r - 50) + (q + 1) * 100) div 100 = q + 1"
      using True r1 by simp
    ultimately show ?thesis using val True by simp
  next
    case False
    have "51 * n + 50 = (r + 50) + q * 100" using split by simp
    moreover have "((r + 50) + q * 100) div 100 = q"
      using False r0 ne by simp
    ultimately show ?thesis using val False by simp
  qed
qed

lemma tie_form:
  assumes "(51 * n) mod 100 = (50::int)"
  shows "n = 100 * (n div 100) + 50"
proof -
  define a where "a = n div 100"
  define b where "b = n mod 100"
  have split: "n = a * 100 + b" unfolding a_def b_def by simp
  have b0: "0 \<le> b" and b1: "b < 100" unfolding b_def by simp_all
  have "(51 * b) mod 100 = 50"
  proof -
    have "51 * n = 51 * b + (51 * a) * 100" using split by simp
    then have "(51 * n) mod 100 = (51 * b) mod 100" by (simp only: mod_mult_self1)
    then show ?thesis using assms by simp
  qed
  then have "(51 * (51 * b)) mod 100 = (51 * 50) mod 100"
    by (metis mod_mult_right_eq)
  then have "(b + 26 * b * 100) mod 100 = 50" by (simp add: algebra_simps)
  then have "b mod 100 = 50" by (simp only: mod_mult_self1)
  then have "b = 50" using b0 b1 by simp
  then show ?thesis using split by (simp add: a_def)
qed

text \<open>
  C2. As stated the claim fails: the code takes \<^verbatim>\<open>round\<close>, not the ceiling. For four peers
  \<^verbatim>\<open>round(4 * 0.51)\<close> is 2, while the ceiling of \<open>0.51 \<times> 4 = 2.04\<close> is 3.
\<close>

theorem gather_cnt_not_ceiling_counterexample:
  "gather_cnt 4 = 2 \<and> \<lceil>0.51 * real_of_int 4\<rceil> = 3 \<and> gather_cnt 4 \<noteq> \<lceil>0.51 * real_of_int 4\<rceil>"
proof -
  have a: "gather_cnt 4 = 2" by code_simp
  have b: "\<lceil>0.51 * real_of_int 4\<rceil> = 3" by simp
  show ?thesis unfolding a b by simp
qed

text \<open>
  C2, amended. The required quorum is the peer count \<open>n\<close> when \<open>n \<le> 2\<close>. For
  \<open>2 < n < 2^46\<close> it is \<^verbatim>\<open>round(n * 0.51)\<close>, which the double arithmetic makes the integer
  nearest to \<open>0.51 \<times> n\<close>, a tie going to the even integer; when \<open>0.51 \<times> n\<close> is not half
  an odd integer this is \<open>(51 n + 50) div 100\<close>, less than one half away from \<open>0.51 \<times> n\<close>.
\<close>

theorem gather_cnt_rounds_to_nearest:
  "(n \<le> 2 \<longrightarrow> gather_cnt n = n)
   \<and> (2 < n \<and> n < 2 ^ 46 \<longrightarrow> gather_cnt n = round_half_even_51 n)
   \<and> (2 < n \<and> n < 2 ^ 46 \<and> (51 * n) mod 100 \<noteq> 50 \<longrightarrow>
        gather_cnt n = (51 * n + 50) div 100 \<and> \<bar>100 * gather_cnt n - 51 * n\<bar> < 50)"
proof -
  have small: "n \<le> 2 \<longrightarrow> gather_cnt n = n"
    by (simp add: gather_cnt_def)
  have no_tie: "gather_cnt n = (51 * n + 50) div 100 \<and> \<bar>100 * gather_cnt n - 51 * n\<bar> < 50"
    if "2 < n \<and> n < 2 ^ 46 \<and> (51 * n) mod 100 \<noteq> 50"
  proof -
    have g: "gather_cnt n = (51 * n + 50) div 100"
      using that gather_no_tie [of n] by (simp add: gather_cnt_def)
    define k where "k = (51 * n + 50) div 100"
    define m where "m = (51 * n + 50) mod 100"
    have km: "51 * n + 50 = k * 100 + m" unfolding k_def m_def by simp
    have m0: "0 \<le> m" and m1: "m < 100" unfolding m_def by simp_all
    have "m \<noteq> 0"
    proof
      assume "m = 0"
      then have e: "51 * n = 50 + (k - 1) * 100" using km by simp
      have "(50 + (k - 1) * 100) mod 100 = (50::int) mod 100" by (rule mod_mult_self1)
      then have "(51 * n) mod 100 = 50" by (simp only: e) simp
      then show False using that by simp
    qed
    then have "\<bar>100 * k - 51 * n\<bar> < 50" using km m0 m1 by linarith
    then show ?thesis using g by (simp add: k_def)
  qed
  have all: "gather_cnt n = round_half_even_51 n" if "2 < n \<and> n < 2 ^ 46"
  proof (cases "(51 * n) mod 100 = 50")
    case False
    then show ?thesis
      using no_tie that by (simp add: round_half_even_51_no_tie)
  next
    case True
    define j where "j = n div 100"
    have n: "n = 100 * j + 50" unfolding j_def using True by (rule tie_form)
    have "0 \<le> n" using that by simp
    then have j0: "0 \<le> j" unfolding j_def by (simp add: pos_imp_zdiv_nonneg_iff)
    have "py_round (float_mul (100 * j + 50) double_0_51) = (if even j then 51 * j + 26 else 51 * j + 25)"
      using j0 that unfolding n by (intro gather_tie) simp_all
    then have "gather_cnt (100 * j + 50) = round_half_even_51 (100 * j + 50)"
      using j0 by (simp add: gather_cnt_def round_half_even_51_tie)
    then show ?thesis using n by simp
  qed
  show ?thesis using small no_tie all by blast
qed

theorem gather_cnt_rounds_to_nearest_witness:
  "gather_cnt 2 = 2
   \<and> (2::int) < 4 \<and> (4::int) < 2 ^ 46 \<and> (51 * 4) mod 100 \<noteq> (50::int)
   \<and> gather_cnt 4 = 2 \<and> round_half_even_51 4 = 2
   \<and> (2::int) < 150 \<and> (150::int) < 2 ^ 46 \<and> gather_cnt 150 = 76"
proof -
  have r: "round_half_even_51 4 = 2" "round_half_even_51 150 = 76" by code_simp+
  show ?thesis
    using gather_cnt_rounds_to_nearest [of 2] gather_cnt_rounds_to_nearest [of 4]
      gather_cnt_rounds_to_nearest [of 150] r
    by simp
qed

subsection \<open>Clock readings\<close>

text \<open>
  Rounding to 53 bits leaves a double as it is and does not go below a double that the
  argument is not below; the difference of two doubles of which neither is more than twice
  the other is a double (Sterbenz), so that their subtraction is exact.
\<close>

lemma bitlen_mono: "a \<le> b \<Longrightarrow> bitlen a \<le> bitlen b"
  by (simp add: bitlen_def floorlog_mono)

lemma round_53_frame:
  assumes big: "\<not> bitlen N \<le> 53"
  obtains s q where "bitlen N = int s + 53" and "q * 2 ^ s \<le> N" and "N < (q + 1) * 2 ^ s"
    and "2 ^ 52 * 2 ^ s \<le> q * 2 ^ s" and "q * 2 ^ s \<le> round_53 N"
    and "N = q * 2 ^ s \<longrightarrow> round_53 N = N"
proof -
  define s where "s = nat (bitlen N - 53)"
  define h :: int where "h = 2 ^ (s - 1)"
  define q where "q = N div 2 ^ s"
  define r where "r = N mod 2 ^ s"
  have Npos: "0 < N" using big bitlen_eq_zero_iff [of N] by (cases "0 < N") auto
  have s1: "1 \<le> s" using big by (simp add: s_def)
  have bl: "bitlen N = int s + 53" using big by (simp add: s_def)
  have pow_s: "(2::int) ^ s = 2 * h"
    using s1 by (simp add: h_def power_eq_if)
  have hpos: "0 < h" by (simp add: h_def)
  have ppos: "(0::int) < 2 ^ s" by simp
  have "N = N div 2 ^ s * 2 ^ s + N mod 2 ^ s"
    by (rule div_mult_mod_eq [symmetric])
  then have split: "N = q * 2 ^ s + r"
    by (simp only: q_def r_def)
  have r0: "0 \<le> r" and r1: "r < 2 ^ s"
    unfolding r_def by simp_all
  have lo: "q * 2 ^ s \<le> N" using split r0 by linarith
  have hi: "N < (q + 1) * 2 ^ s" using split r1 by (simp add: algebra_simps)
  have "nat (bitlen N - 1) = s + 52"
    using bl by simp
  then have b1: "(2::int) ^ (s + 52) \<le> N"
    using bitlen_bounds [OF Npos] by simp
  have e52: "(2::int) ^ (s + 52) = 2 ^ 52 * 2 ^ s"
    by (simp add: power_add)
  have "(2::int) ^ 52 * 2 ^ s < (q + 1) * 2 ^ s"
    using b1 hi unfolding e52 by linarith
  then have "(2::int) ^ 52 < q + 1"
    using ppos by (simp only: mult_less_cancel_right_pos)
  then have q_lo: "(2::int) ^ 52 \<le> q" by simp
  have m1: "2 ^ 52 * 2 ^ s \<le> q * 2 ^ s"
    using q_lo ppos by (intro mult_right_mono) simp_all
  have val0: "round_53 N =
      (if N mod 2 ^ s > 2 ^ (s - 1) \<or> (N mod 2 ^ s = 2 ^ (s - 1) \<and> odd (N div 2 ^ s))
       then N div 2 ^ s + 1 else N div 2 ^ s) * 2 ^ s"
    unfolding round_53_def Let_def s_def using big by (simp only: if_False)
  have val: "round_53 N = (if r > h \<or> (r = h \<and> odd q) then q + 1 else q) * 2 ^ s"
    unfolding q_def r_def h_def by (rule val0)
  have qle: "q * 2 ^ s \<le> (q + 1) * 2 ^ s"
    using ppos by (intro mult_right_mono) simp_all
  have rlo: "q * 2 ^ s \<le> round_53 N"
    unfolding val using qle by (cases "r > h \<or> (r = h \<and> odd q)") simp_all
  have exact: "N = q * 2 ^ s \<longrightarrow> round_53 N = N"
  proof
    assume "N = q * 2 ^ s"
    then have "r = 0" using split by simp
    then show "round_53 N = N" using val hpos \<open>N = q * 2 ^ s\<close> by simp
  qed
  show ?thesis using that [OF bl lo hi m1 rlo exact] .
qed

lemma is_double_dvd:
  "is_double c \<Longrightarrow> 0 \<le> c \<Longrightarrow> bitlen c = int s + 53 \<Longrightarrow> 2 ^ s dvd c"
  by (simp add: is_double_def)

lemma round_53_double:
  assumes "0 \<le> N" and "is_double N"
  shows "round_53 N = N"
proof (cases "bitlen N \<le> 53")
  case True
  then show ?thesis by (simp add: round_53_def)
next
  case False
  then obtain s q where bl: "bitlen N = int s + 53" and lo: "q * 2 ^ s \<le> N"
    and hi: "N < (q + 1) * 2 ^ s" and exact: "N = q * 2 ^ s \<longrightarrow> round_53 N = N"
    by (rule round_53_frame)
  have "(2::int) ^ s dvd N" by (rule is_double_dvd [OF assms(2) assms(1) bl])
  then obtain k where k: "N = k * 2 ^ s" by (auto simp add: dvd_def mult.commute)
  have ppos: "(0::int) < 2 ^ s" by simp
  have "(k + 1) * 2 ^ s = k * 2 ^ s + 2 ^ s" by (simp add: algebra_simps)
  then have "q * 2 ^ s < (k + 1) * 2 ^ s" using lo k ppos by linarith
  then have "q < k + 1"
    using ppos by (simp only: mult_less_cancel_right_pos)
  moreover have "k * 2 ^ s < (q + 1) * 2 ^ s" using hi k by linarith
  then have "k < q + 1"
    using ppos by (simp only: mult_less_cancel_right_pos)
  ultimately have "k = q" by simp
  then show ?thesis using exact k by simp
qed

lemma round_53_lower:
  assumes c0: "0 \<le> c" and dc: "is_double c" and le: "c \<le> N"
  shows "c \<le> round_53 N"
proof (cases "bitlen N \<le> 53")
  case True
  then show ?thesis using le by (simp add: round_53_def)
next
  case False
  then obtain s q where bl: "bitlen N = int s + 53" and lo: "q * 2 ^ s \<le> N"
    and hi: "N < (q + 1) * 2 ^ s" and m1: "2 ^ 52 * 2 ^ s \<le> q * 2 ^ s"
    and rlo: "q * 2 ^ s \<le> round_53 N"
    by (rule round_53_frame)
  have ppos: "(0::int) < 2 ^ s" by simp
  have "c \<le> q * 2 ^ s"
  proof (cases "bitlen c = bitlen N")
    case True
    then have "(2::int) ^ s dvd c" using dc c0 bl by (intro is_double_dvd) simp_all
    then obtain k where k: "c = k * 2 ^ s" by (auto simp add: dvd_def mult.commute)
    have "k * 2 ^ s < (q + 1) * 2 ^ s" using le hi k by linarith
    then have "k < q + 1"
      using ppos by (simp only: mult_less_cancel_right_pos)
    then have "k \<le> q" by simp
    then have "k * 2 ^ s \<le> q * 2 ^ s" using ppos by (intro mult_right_mono) simp_all
    then show ?thesis using k by simp
  next
    case False
    then have less: "bitlen c \<le> int s + 52" using bitlen_mono [OF le] bl by simp
    have "c < 2 ^ (s + 52)"
      using less by (simp add: bitlen_le_iff_power nat_add_distrib)
    moreover have "(2::int) ^ (s + 52) = 2 ^ 52 * 2 ^ s" by (simp add: power_add)
    ultimately show ?thesis using m1 by linarith
  qed
  then show ?thesis using rlo by linarith
qed

lemma sterbenz:
  assumes da: "is_double a" and db: "is_double b" and b0: "0 < b" and ba: "b \<le> a" and ab: "a \<le> 2 * b"
  shows "is_double (a - b)"
proof -
  define ea where "ea = nat (bitlen a - 53)"
  define eb where "eb = nat (bitlen b - 53)"
  define ed where "ed = nat (bitlen (a - b) - 53)"
  have "eb \<le> ea" using bitlen_mono [OF ba] by (simp add: ea_def eb_def)
  then have "(2::int) ^ eb dvd 2 ^ ea" by (rule le_imp_power_dvd)
  moreover have "(2::int) ^ ea dvd a" using da b0 ba by (simp add: is_double_def ea_def)
  ultimately have "(2::int) ^ eb dvd a" by (rule dvd_trans)
  moreover have "(2::int) ^ eb dvd b" using db b0 by (simp add: is_double_def eb_def)
  ultimately have d: "(2::int) ^ eb dvd a - b" by (rule dvd_diff)
  have "a - b \<le> b" using ab by simp
  then have "ed \<le> eb" using bitlen_mono [of "a - b" b] by (simp add: ed_def eb_def)
  then have "(2::int) ^ ed dvd 2 ^ eb" by (rule le_imp_power_dvd)
  then have "(2::int) ^ ed dvd a - b" using d by (rule dvd_trans)
  then show ?thesis using ba by (simp add: is_double_def ed_def)
qed

lemma is_double_0: "is_double 0"
  by (simp add: is_double_def)

lemma fsub_exact:
  "is_double a \<Longrightarrow> is_double b \<Longrightarrow> 0 < b \<Longrightarrow> b \<le> a \<Longrightarrow> a \<le> 2 * b \<Longrightarrow> fsub a b = a - b"
  using round_53_double [of "a - b"] sterbenz [of a b] by (simp add: fsub_def)

lemma fsub_lower:
  "is_double c \<Longrightarrow> 0 \<le> c \<Longrightarrow> c \<le> a - b \<Longrightarrow> c \<le> fsub a b"
  using round_53_lower [of c "a - b"] by (simp add: fsub_def)

lemma fsub_nonpos:
  assumes "a \<le> b"
  shows "fsub a b \<le> 0"
proof (cases "a = b")
  case True
  then show ?thesis by (simp add: fsub_def round_53_def)
next
  case False
  then have "0 \<le> round_53 (b - a)"
    using assms is_double_0 by (intro round_53_lower) simp_all
  then show ?thesis using assms False by (simp add: fsub_def)
qed

lemma round_53_up_part:
  assumes s1: "1 \<le> s" and bl: "bitlen N = int s + 53"
    and N: "N = e + Q * 2 ^ s" and eh: "2 ^ (s - 1) < e" and es: "e < 2 ^ s"
  shows "round_53 N = (Q + 1) * 2 ^ s"
proof -
  have "(0::int) < 2 ^ (s - 1)" by simp
  then have e0: "0 \<le> e" using eh by linarith
  have d: "N div 2 ^ s = Q"
    unfolding N using e0 es by simp
  have m: "N mod 2 ^ s = e"
    unfolding N using e0 es by simp
  have ns: "nat (bitlen N - 53) = s" using bl by simp
  have "\<not> bitlen N \<le> 53" using bl s1 by simp
  then have "round_53 N =
      (if N mod 2 ^ s > 2 ^ (s - 1) \<or> (N mod 2 ^ s = 2 ^ (s - 1) \<and> odd (N div 2 ^ s))
       then N div 2 ^ s + 1 else N div 2 ^ s) * 2 ^ s"
    unfolding round_53_def Let_def ns by (simp only: if_False)
  then show ?thesis
    unfolding d m using eh by simp
qed

lemma is_double_shift:
  assumes "0 < k" and "k < 2 ^ 53"
  shows "is_double (k * 2 ^ n)"
proof -
  have "bitlen k \<le> 53" using assms(2) by (simp add: bitlen_le_iff_power)
  then have "nat (bitlen (k * 2 ^ n) - 53) \<le> n" using assms(1) by simp
  then have "(2::int) ^ nat (bitlen (k * 2 ^ n) - 53) dvd 2 ^ n" by (rule le_imp_power_dvd)
  then have "(2::int) ^ nat (bitlen (k * 2 ^ n) - 53) dvd k * 2 ^ n" by (rule dvd_mult)
  moreover have "\<bar>k * 2 ^ n\<bar> = k * 2 ^ n" using assms(1) by (simp add: abs_mult)
  ultimately show ?thesis unfolding is_double_def by simp
qed

lemma is_double_seconds: "0 < n \<Longrightarrow> n < 2 ^ 53 \<Longrightarrow> is_double (seconds n)"
  unfolding seconds_def by (rule is_double_shift)

lemma seconds_less: "(seconds a < seconds b) = (a < b)"
  by (simp add: seconds_def)

lemma seconds_le: "(seconds a \<le> seconds b) = (a \<le> b)"
  by (simp add: seconds_def)

lemma seconds_diff: "seconds a - seconds b = seconds (a - b)"
  by (simp add: seconds_def algebra_simps)

lemma seconds_0: "seconds 0 = 0"
  by (simp add: seconds_def)

lemma fsub_seconds:
  assumes "0 < b" and "b \<le> a" and "a \<le> 2 * b" and "a < 2 ^ 53"
  shows "fsub (seconds a) (seconds b) = seconds (a - b)"
proof -
  have "is_double (seconds a)" "is_double (seconds b)"
    using assms by (simp_all add: is_double_seconds)
  moreover have "0 < seconds b" "seconds b \<le> seconds a"
    using assms seconds_less [of 0 b] by (simp_all add: seconds_0 seconds_le)
  moreover have "seconds a \<le> 2 * seconds b"
    using assms(3) seconds_le [of a "2 * b"] by (simp add: seconds_def)
  ultimately show ?thesis by (simp add: fsub_exact seconds_diff)
qed

lemma seconds_facts:
  "0 < seconds 60" "seconds 60 \<le> seconds 900" "seconds 1800 = 2 * seconds 900"
  "is_double (seconds 900)" "is_double (seconds 60)"
proof -
  show "0 < seconds 60" using seconds_less [of 0 60] by (simp add: seconds_0)
  show "seconds 60 \<le> seconds 900" by (simp add: seconds_le)
  show "seconds 1800 = 2 * seconds 900" by (simp add: seconds_def)
  show "is_double (seconds 900)" "is_double (seconds 60)" by (simp_all add: is_double_seconds)
qed

text \<open>The quotient of an integer by one of its divisors is the double of the exact quotient.\<close>

lemma int_truediv_exact:
  assumes "0 < b" and "0 \<le> k"
  shows "int_truediv (b * k) b = round_53 (seconds k)"
proof -
  have a0: "0 \<le> b * k" using assms by simp
  have n: "\<bar>b * k\<bar> * 2 ^ 1074 = b * seconds k"
    using a0 by (simp add: seconds_def)
  have d: "b * seconds k div b = seconds k" and m: "b * seconds k mod b = 0"
    using assms(1) by simp_all
  show ?thesis
    unfolding int_truediv_def n Let_def d m round_53_def using assms(1) a0 by simp
qed

lemma int_truediv_900: "int_truediv 900 15 = seconds 60"
proof -
  have "int_truediv (15 * 60) 15 = round_53 (seconds 60)"
    by (rule int_truediv_exact) simp_all
  moreover have "round_53 (seconds 60) = seconds 60"
    using seconds_facts(1,5) by (intro round_53_double) simp_all
  ultimately show ?thesis by simp
qed

subsection \<open>Instant-lock cache\<close>

lemma age_over:
  assumes "seconds 900 < now - t"
  shows "\<not> fsub now t < seconds 900"
proof -
  have "0 \<le> seconds 900" "seconds 900 \<le> now - t"
    using assms seconds_facts(1,2) by linarith+
  then have "seconds 900 \<le> fsub now t"
    using seconds_facts(4) by (intro fsub_lower)
  then show ?thesis by simp
qed

lemma age_under:
  assumes dn: "is_double now" and dt: "is_double t" and late: "seconds 1800 \<le> now"
    and young: "now - t < seconds 900"
  shows "fsub now t < seconds 900"
proof (cases "now \<le> t")
  case True
  then have "fsub now t \<le> 0" by (rule fsub_nonpos)
  then show ?thesis using seconds_facts by linarith
next
  case False
  have "0 < t" "t \<le> now" "now \<le> 2 * t"
    using False late young seconds_facts(1,2,3) by linarith+
  then have "fsub now t = now - t"
    using dn dt by (intro fsub_exact)
  then show ?thesis using young by simp
qed

lemma gap_under:
  assumes d1: "is_double t1" and d2: "is_double t2" and late: "seconds 1800 \<le> t1"
    and near: "t2 - t1 < seconds 60"
  shows "fsub t2 t1 < seconds 60"
proof (cases "t2 \<le> t1")
  case True
  then have "fsub t2 t1 \<le> 0" by (rule fsub_nonpos)
  then show ?thesis using seconds_facts by linarith
next
  case False
  have "0 < t1" "t1 \<le> t2" "t2 \<le> 2 * t1"
    using False late near seconds_facts(1,2,3) by linarith+
  then have "fsub t2 t1 = t2 - t1"
    using d1 d2 by (intro fsub_exact)
  then show ?thesis using near by simp
qed

text \<open>
  C7. As stated the claim fails: the age of a record is a difference of doubles, which is
  rounded. At the clock reading 900.1343642441124 a record of the time 0.13436424411240122 is
  younger than 900 seconds, the double difference is 900.0, and the scan drops the record.
\<close>

theorem clear_recent_islocks_drops_young_counterexample:
  "recent_islocks islocks_epoch_example
     = [(''tx1'', epoch_islock_time, ''islock1'', ''quorum'', ''id1'')]
   \<and> is_double epoch_islock_time
   \<and> is_double epoch_clock
   \<and> epoch_clock - epoch_islock_time < seconds 900
   \<and> fsub epoch_clock epoch_islock_time = seconds 900
   \<and> islocks_scan islocks_epoch_example 900 epoch_clock
   \<and> recent_islocks (clear_recent_islocks islocks_epoch_example 900 epoch_clock) = []"
proof -
  have dt: "is_double epoch_islock_time" and dc: "is_double epoch_clock"
    unfolding epoch_islock_time_def epoch_clock_def by (rule is_double_shift; simp)+
  have diff: "epoch_clock - epoch_islock_time = 8106479329266892447 * 2 ^ 1021"
    by (simp add: epoch_clock_def epoch_islock_time_def)
  have young: "epoch_clock - epoch_islock_time < seconds 900"
    by (simp add: epoch_clock_def epoch_islock_time_def seconds_def)
  have s1: "1 \<le> (1031::nat)" by simp
  have "bitlen (8106479329266892447 :: int) = 63"
    by (simp add: bitlen_le_iff_power bitlen_ge_iff_power order.antisym)
  then have bl: "bitlen (8106479329266892447 * 2 ^ 1021) = int 1031 + 53"
    by (simp only: bitlen_pow2)
  have split: "8106479329266892447 * 2 ^ 1021
      = 671 * 2 ^ 1021 + 7916483719987199 * (2 ^ 1031 :: int)"
    by simp
  have eh: "(2::int) ^ (1031 - 1) < 671 * 2 ^ 1021" and es: "671 * 2 ^ 1021 < (2::int) ^ 1031"
    by simp_all
  have "round_53 (8106479329266892447 * 2 ^ 1021) = (7916483719987199 + 1) * 2 ^ 1031"
    by (rule round_53_up_part [OF s1 bl split eh es])
  moreover have "(7916483719987199 + 1) * 2 ^ 1031 = seconds 900"
    by (simp add: seconds_def)
  ultimately have r: "round_53 (epoch_clock - epoch_islock_time) = seconds 900"
    unfolding diff by (rule trans)
  have "\<not> epoch_clock - epoch_islock_time < 0"
    by (simp add: epoch_clock_def epoch_islock_time_def)
  then have age: "fsub epoch_clock epoch_islock_time = seconds 900"
    unfolding fsub_def Let_def using r by (simp only: if_False)
  have "0 \<le> epoch_clock" by (simp add: epoch_clock_def)
  then have "fsub epoch_clock 0 = epoch_clock"
    using dc by (simp add: fsub_def round_53_double)
  moreover have "seconds 60 \<le> epoch_clock"
    by (simp add: epoch_clock_def seconds_def)
  ultimately have scan: "islocks_scan islocks_epoch_example 900 epoch_clock"
    by (simp add: islocks_scan_def islocks_epoch_example_def DashNet_init_def int_truediv_900
          not_less)
  have "recent_islocks (clear_recent_islocks islocks_epoch_example 900 epoch_clock)
      = filter (\<lambda>x. fsub epoch_clock (islock_time x) < seconds 900)
          (recent_islocks islocks_epoch_example)"
    using scan by (simp add: clear_recent_islocks_def islocks_scan_def)
  then have gone: "recent_islocks (clear_recent_islocks islocks_epoch_example 900 epoch_clock) = []"
    using age by (simp add: islocks_epoch_example_def islock_time_def)
  have "recent_islocks islocks_epoch_example
     = [(''tx1'', epoch_islock_time, ''islock1'', ''quorum'', ''id1'')]"
    by (simp add: islocks_epoch_example_def)
  then show ?thesis using dt dc young age scan gone by blast
qed

text \<open>
  C7, amended. When a call of \<^verbatim>\<open>clear_recent_islocks\<close> (with the default window of 900
  seconds) scans the list, the list becomes its entries whose age, as the double difference
  of the clock reading and the entry's time, is under 900 seconds. Every entry whose age
  exceeds 900 seconds is gone; and when the clock reads at least 1800 seconds, every entry
  whose age is under 900 seconds is still there. A call that does not scan returns the object
  unchanged. Of two calls with clock readings of at least 1800 seconds, the second made with
  a reading less than 60 seconds after the first one's, at most one scans: if the first
  scanned, the second changes nothing.
\<close>

theorem clear_recent_islocks_prunes:
  "(islocks_scan s 900 now \<longrightarrow>
      recent_islocks (clear_recent_islocks s 900 now)
        = filter (\<lambda>x. fsub now (islock_time x) < seconds 900) (recent_islocks s)
      \<and> (\<forall>x \<in> set (recent_islocks s).
            (seconds 900 < now - islock_time x \<longrightarrow>
               x \<notin> set (recent_islocks (clear_recent_islocks s 900 now)))
          \<and> (is_double now \<and> is_double (islock_time x) \<and> seconds 1800 \<le> now
               \<and> now - islock_time x < seconds 900 \<longrightarrow>
               x \<in> set (recent_islocks (clear_recent_islocks s 900 now))))
      \<and> recent_islocks_clear (clear_recent_islocks s 900 now) = now)
   \<and> (\<not> islocks_scan s 900 now \<longrightarrow> clear_recent_islocks s 900 now = s)
   \<and> (is_double t1 \<and> is_double t2 \<and> seconds 1800 \<le> t1 \<and> t2 - t1 < seconds 60 \<longrightarrow>
        \<not> (islocks_scan s 900 t1 \<and> islocks_scan (clear_recent_islocks s 900 t1) 900 t2))
   \<and> (is_double t1 \<and> is_double t2 \<and> seconds 1800 \<le> t1 \<and> t2 - t1 < seconds 60
        \<and> islocks_scan s 900 t1 \<longrightarrow>
        clear_recent_islocks (clear_recent_islocks s 900 t1) 900 t2 = clear_recent_islocks s 900 t1)"
proof -
  have scan: "recent_islocks (clear_recent_islocks s 900 now)
        = filter (\<lambda>x. fsub now (islock_time x) < seconds 900) (recent_islocks s)
      \<and> recent_islocks_clear (clear_recent_islocks s 900 now) = now"
    if "islocks_scan s 900 now"
    using that by (simp add: clear_recent_islocks_def islocks_scan_def)
  have old: "x \<notin> set (recent_islocks (clear_recent_islocks s 900 now))"
    if "islocks_scan s 900 now" "seconds 900 < now - islock_time x" for x
    using scan [OF that(1)] age_over [OF that(2)] by simp
  have young: "x \<in> set (recent_islocks (clear_recent_islocks s 900 now))"
    if "islocks_scan s 900 now" "x \<in> set (recent_islocks s)"
      "is_double now \<and> is_double (islock_time x) \<and> seconds 1800 \<le> now
         \<and> now - islock_time x < seconds 900" for x
  proof -
    have "fsub now (islock_time x) < seconds 900"
      using that(3) by (intro age_under) simp_all
    then show ?thesis using scan [OF that(1)] that(2) by simp
  qed
  have skip: "clear_recent_islocks s 900 now = s" if "\<not> islocks_scan s 900 now"
    using that by (simp add: clear_recent_islocks_def islocks_scan_def)
  have second: "\<not> islocks_scan (clear_recent_islocks s 900 t1) 900 t2"
    if "islocks_scan s 900 t1"
      "is_double t1 \<and> is_double t2 \<and> seconds 1800 \<le> t1 \<and> t2 - t1 < seconds 60"
  proof -
    have "fsub t2 t1 < seconds 60"
      using that(2) by (intro gap_under) simp_all
    then show ?thesis
      using that(1) by (simp add: clear_recent_islocks_def islocks_scan_def int_truediv_900)
  qed
  have again: "clear_recent_islocks (clear_recent_islocks s 900 t1) 900 t2
      = clear_recent_islocks s 900 t1"
    if "islocks_scan s 900 t1"
      "is_double t1 \<and> is_double t2 \<and> seconds 1800 \<le> t1 \<and> t2 - t1 < seconds 60"
    using second [OF that]
    by (simp add: islocks_scan_def clear_recent_islocks_def [of "clear_recent_islocks s 900 t1"])
  show ?thesis
    using scan old young skip second again by blast
qed

lemma islocks_example_scan:
  "islocks_scan islocks_example 900 (seconds 1572567501)"
  "recent_islocks (clear_recent_islocks islocks_example 900 (seconds 1572567501))
     = [(''tx2'', seconds 1572567350, ''islock2'', ''quorum'', ''id2'')]"
proof -
  show scan: "islocks_scan islocks_example 900 (seconds 1572567501)"
    by (simp add: islocks_scan_def islocks_example_def DashNet_init_def int_truediv_900
          fsub_seconds seconds_less)
  have "recent_islocks (clear_recent_islocks islocks_example 900 (seconds 1572567501))
      = filter (\<lambda>x. fsub (seconds 1572567501) (islock_time x) < seconds 900)
          (recent_islocks islocks_example)"
    using scan by (simp add: clear_recent_islocks_def islocks_scan_def)
  then show "recent_islocks (clear_recent_islocks islocks_example 900 (seconds 1572567501))
     = [(''tx2'', seconds 1572567350, ''islock2'', ''quorum'', ''id2'')]"
    by (simp add: islocks_example_def islock_time_def fsub_seconds seconds_less)
qed

theorem clear_recent_islocks_prunes_witness:
  "islocks_scan islocks_example 900 (seconds 1572567501)
   \<and> recent_islocks islocks_example
       = [(''tx1'', seconds 1572566500, ''islock1'', ''quorum'', ''id1''),
          (''tx2'', seconds 1572567350, ''islock2'', ''quorum'', ''id2'')]
   \<and> seconds 900 < seconds 1572567501 - seconds 1572566500
   \<and> is_double (seconds 1572567501) \<and> is_double (seconds 1572567350)
   \<and> seconds 1800 \<le> seconds 1572567501
   \<and> seconds 1572567501 - seconds 1572567350 < seconds 900
   \<and> recent_islocks (clear_recent_islocks islocks_example 900 (seconds 1572567501))
       = [(''tx2'', seconds 1572567350, ''islock2'', ''quorum'', ''id2'')]
   \<and> is_double (seconds 1572567550)
   \<and> seconds 1572567550 - seconds 1572567501 < seconds 60
   \<and> \<not> islocks_scan (clear_recent_islocks islocks_example 900 (seconds 1572567501)) 900
         (seconds 1572567550)
   \<and> clear_recent_islocks (clear_recent_islocks islocks_example 900 (seconds 1572567501)) 900
         (seconds 1572567550)
       = clear_recent_islocks islocks_example 900 (seconds 1572567501)"
proof -
  have a: "seconds 900 < seconds 1572567501 - seconds 1572566500"
    "seconds 1800 \<le> seconds 1572567501"
    "seconds 1572567501 - seconds 1572567350 < seconds 900"
    "seconds 1572567550 - seconds 1572567501 < seconds 60"
    "is_double (seconds 1572567501)" "is_double (seconds 1572567350)"
    "is_double (seconds 1572567550)"
    by (simp_all add: seconds_diff seconds_le seconds_less is_double_seconds)
  have b: "recent_islocks islocks_example
       = [(''tx1'', seconds 1572566500, ''islock1'', ''quorum'', ''id1''),
          (''tx2'', seconds 1572567350, ''islock2'', ''quorum'', ''id2'')]"
    by (simp add: islocks_example_def)
  show ?thesis
    using clear_recent_islocks_prunes [of islocks_example "seconds 1572567501"
        "seconds 1572567501" "seconds 1572567550"]
      clear_recent_islocks_prunes
        [of "clear_recent_islocks islocks_example 900 (seconds 1572567501)" "seconds 1572567550"]
      islocks_example_scan a b
    by blast
qed

subsection \<open>Mixing-queue cache\<close>



















subsection \<open>Hostname validator\<close>

text \<open>
  The examples of the specification: a well-formed name, a label that starts with a hyphen,
  a trailing dot, and a lone dot.
\<close>

lemma is_valid_hostname_examples:
  "is_valid_hostname ''dnsseed.dash.org'' = Inr True"
  "is_valid_hostname ''-bad.com'' = Inr False"
  "is_valid_hostname ''good.'' = Inr True"
  "is_valid_hostname ''.'' = Inr False"
  by code_simp+

text \<open>
  C10. \<^verbatim>\<open>is_valid_hostname\<close> is not total over strings: on the empty string the lookup of
  the last character raises \<^verbatim>\<open>IndexError\<close>, and the empty string is the only input on
  which it fails; on every non-empty string it returns a boolean.
\<close>

theorem is_valid_hostname_fails_only_on_empty:
  "is_valid_hostname [] = Inl IndexError
   \<and> (is_valid_hostname h = Inl IndexError) = (h = [])
   \<and> (\<exists>b. is_valid_hostname h = Inr b) = (h \<noteq> [])"
  by (auto simp add: is_valid_hostname_def Let_def)

subsection \<open>Peer pool: stop\<close>

lemma started_example_eq:
  "started_example =
     (DashNet_init False Map.empty False [] None 0)
       \<lparr>main_taskgroup := Some (TaskGroup False),
        peers := [''1.2.3.4:9999'' \<mapsto> peer_a],
        connecting := {''5.6.7.8:9999''},
        peers_queue := Some [''1.2.3.4:9999'', ''5.6.7.8:9999'']\<rparr>"
  by (simp add: started_example_def start_def start_peer_def run_new_peer_def DashNet_init_def Let_def)

lemma stop_peers: "peers (stop s outcome full) = peers s"
  by (simp add: stop_def split: option.splits)

text \<open>
  C1. The claim holds of the connecting set and of the queue and fails of the live-peer map:
  \<^verbatim>\<open>stop\<close> assigns the empty dictionary to the attribute \<^verbatim>\<open>peeers\<close> and leaves
  \<^verbatim>\<open>peers\<close> as it is. On a started pool with one live peer, whose cancellation times out,
  the peer is still in the map after \<^verbatim>\<open>stop\<close>, and the next \<^verbatim>\<open>_start\<close> fails its
  assertion \<^verbatim>\<open>assert not self.peers\<close>.
\<close>

theorem stop_leaves_live_peers:
  "main_taskgroup started_example \<noteq> None
   \<and> peers (stop started_example TimeoutError False) = [''1.2.3.4:9999'' \<mapsto> peer_a]
   \<and> peers (stop started_example Returned False) ''1.2.3.4:9999'' = Some peer_a
   \<and> peeers (stop started_example TimeoutError False) = Some Map.empty
   \<and> connecting (stop started_example TimeoutError False) = {}
   \<and> peers_queue (stop started_example TimeoutError False) = None
   \<and> fst (start (stop started_example TimeoutError False) True False []) = Some AssertionError"
  by (simp add: started_example_eq stop_def start_def DashNet_init_def Let_def)

subsection \<open>Peer pool: live and connecting\<close>

lemma pool_inv_alt: "pool_inv s = (\<forall>p. p \<in> connecting s \<longrightarrow> peers s p = None)"
  by (auto simp add: pool_inv_def)

lemma inv_init: "pool_inv (DashNet_init tn bl sm st cm now)"
  by (simp add: pool_inv_def DashNet_init_def)

lemma inv_start: "pool_inv s \<Longrightarrow> pool_inv (snd (start s r sm st))"
  by (simp add: pool_inv_def start_def Let_def)

lemma inv_stop: "pool_inv s \<Longrightarrow> pool_inv (stop s w f)"
  by (simp add: pool_inv_def stop_def split: option.splits)

lemma inv_start_peer: "pool_inv s \<Longrightarrow> pool_inv (snd (start_peer s p))"
  by (auto simp add: pool_inv_def start_peer_def Let_def split: option.splits)

lemma inv_run_new_peer: "pool_inv s \<Longrightarrow> pool_inv (snd (run_new_peer s p dp out))"
  by (cases out) (auto simp add: pool_inv_def run_new_peer_def)

lemma inv_close_peer: "pool_inv s \<Longrightarrow> pool_inv (close_peer s p dp)"
  by (auto simp add: pool_inv_def close_peer_def)

lemma inv_connection_down: "pool_inv s \<Longrightarrow> pool_inv (connection_down s dp now)"
  using inv_close_peer [of s "peer dp" dp]
  by (auto simp add: pool_inv_def connection_down_def add_banned_peer_def Let_def)

lemma inv_remove_banned: "pool_inv s \<Longrightarrow> pool_inv (remove_banned_peer s p)"
  by (simp add: pool_inv_def remove_banned_peer_def)

lemma inv_find_peers: "pool_inv s \<Longrightarrow> find_peers ia ans r s = Some s1 \<Longrightarrow> pool_inv s1"
  by (auto simp add: pool_inv_alt find_peers_def Let_def split: if_splits option.splits)

lemma inv_queue_dynamic_pass: "pool_inv s \<Longrightarrow> pool_inv (snd (queue_dynamic_pass r s))"
  by (simp add: queue_dynamic_pass_def inv_start_peer)

lemma inv_queue_static: "pool_inv s \<Longrightarrow> pool_inv (snd (queue_static clock i s ps))"
proof (induction ps arbitrary: i s)
  case Nil
  then show ?case by simp
next
  case (Cons p ps)
  have a: "pool_inv (s\<lparr>disconnected_static := m\<rparr>)" for m
    using Cons.prems by (simp add: pool_inv_def)
  have b: "pool_inv (snd (start_peer s1 p))" if "pool_inv s1" for s1
    using that by (rule inv_start_peer)
  show ?case
    using Cons.prems Cons.IH a b
    by (auto simp add: Let_def split: prod.splits option.splits) (metis snd_conv)+
qed

lemma inv_queue_dynamic:
  "pool_inv s \<Longrightarrow> queue_dynamic rs s = Some res \<Longrightarrow> pool_inv (snd res)"
proof (induction rs arbitrary: s)
  case Nil
  then show ?case by (auto split: if_splits)
next
  case (Cons r rs)
  obtain e s1 where pass: "queue_dynamic_pass r s = (e, s1)"
    by (cases "queue_dynamic_pass r s")
  have s1: "pool_inv s1"
    using inv_queue_dynamic_pass [OF Cons.prems(1), of r] pass by simp
  show ?case
  proof (cases "peers_total s < max_peers s")
    case False
    then show ?thesis using Cons.prems by auto
  next
    case True
    show ?thesis
    proof (cases e)
      case None
      then have "queue_dynamic rs s1 = Some res"
        using Cons.prems(2) True pass by simp
      then show ?thesis using Cons.IH s1 by blast
    next
      case (Some err)
      then have "res = (Some err, s1)"
        using Cons.prems(2) True pass by simp
      then show ?thesis using s1 by simp
    qed
  qed
qed

lemma inv_queue_peers:
  "pool_inv s \<Longrightarrow> queue_peers clock rs s = Some res \<Longrightarrow> pool_inv (snd res)"
  using inv_queue_static [of s clock 0 "static_peers s"] inv_queue_dynamic [of s rs res]
  by (auto simp add: queue_peers_def split: if_splits)

lemma inv_pool_step: "pool_inv s \<Longrightarrow> pool_inv (pool_step a s)"
proof (cases a)
  case (FindPeers ia ans r)
  assume "pool_inv s"
  then show ?thesis using FindPeers inv_find_peers [of s ia ans r]
    by (auto split: option.splits)
next
  case (QueuePeers clock rs)
  assume "pool_inv s"
  then show ?thesis using QueuePeers inv_queue_peers [of s clock rs]
    by (auto split: option.splits)
qed (simp_all add: inv_start inv_stop inv_start_peer inv_run_new_peer inv_close_peer
       inv_connection_down inv_remove_banned inv_queue_dynamic_pass)

lemma inv_run_pool: "pool_inv s \<Longrightarrow> pool_inv (run_pool s steps)"
  unfolding run_pool_def
  by (induction steps arbitrary: s) (simp_all add: inv_pool_step)


text \<open>
  C9. After any sequence of steps from the constructed pool, an address in the live-peer map
  is not in the connecting set. \<^verbatim>\<open>_start_peer\<close> adds an address to the connecting set only
  when it is in neither set; \<^verbatim>\<open>_run_new_peer\<close> removes the address from the connecting set
  on every path, and a handshake that succeeds puts it in the live-peer map.
\<close>

theorem live_not_connecting:
  "(\<forall>a. a \<in> dom (peers (run_pool (DashNet_init tn bl sm st cm now) steps))
        \<longrightarrow> a \<notin> connecting (run_pool (DashNet_init tn bl sm st cm now) steps))
   \<and> (q \<in> connecting (snd (start_peer s p)) \<longrightarrow>
        q \<in> connecting s \<or> (q = p \<and> p \<notin> dom (peers s) \<and> p \<notin> connecting s))
   \<and> p \<notin> connecting (snd (run_new_peer s p dash_peer outcome))
   \<and> (fst (run_new_peer s p dash_peer Ready) = None \<longrightarrow>
        peers (snd (run_new_peer s p dash_peer Ready)) p = Some dash_peer)"
proof -
  have "pool_inv (run_pool (DashNet_init tn bl sm st cm now) steps)"
    using inv_init by (rule inv_run_pool)
  then have inv: "\<forall>a. a \<in> dom (peers (run_pool (DashNet_init tn bl sm st cm now) steps))
        \<longrightarrow> a \<notin> connecting (run_pool (DashNet_init tn bl sm st cm now) steps)"
    by (auto simp add: pool_inv_alt)
  have sp: "q \<in> connecting (snd (start_peer s p)) \<longrightarrow>
        q \<in> connecting s \<or> (q = p \<and> p \<notin> dom (peers s) \<and> p \<notin> connecting s)"
    by (auto simp add: start_peer_def Let_def split: option.splits if_splits)
  have rn: "p \<notin> connecting (snd (run_new_peer s p dash_peer outcome))"
    by (cases outcome) (simp_all add: run_new_peer_def)
  have rr: "fst (run_new_peer s p dash_peer Ready) = None \<longrightarrow>
        peers (snd (run_new_peer s p dash_peer Ready)) p = Some dash_peer"
    by (simp add: run_new_peer_def)
  show ?thesis using inv sp rn rr by blast
qed

lemma pool_steps_example_run:
  "run_pool (DashNet_init False Map.empty False [] None 0) pool_steps_example
   = (DashNet_init False Map.empty False [] None 0)
       \<lparr>main_taskgroup := Some (TaskGroup False),
        peers := [''1.2.3.4:9999'' \<mapsto> peer_a],
        connecting := {''5.6.7.8:9999''},
        peers_queue := Some [''1.2.3.4:9999'', ''5.6.7.8:9999'']\<rparr>"
  by (simp add: run_pool_def pool_steps_example_def start_def start_peer_def run_new_peer_def
        DashNet_init_def Let_def insert_commute)

theorem live_not_connecting_witness:
  "''1.2.3.4:9999'' \<in> dom (peers (run_pool (DashNet_init False Map.empty False [] None 0) pool_steps_example))
   \<and> ''1.2.3.4:9999'' \<notin> connecting (run_pool (DashNet_init False Map.empty False [] None 0) pool_steps_example)
   \<and> ''5.6.7.8:9999'' \<in> connecting (run_pool (DashNet_init False Map.empty False [] None 0) pool_steps_example)
   \<and> ''9.9.9.9:9999'' \<in> connecting (snd (start_peer
        (run_pool (DashNet_init False Map.empty False [] None 0) pool_steps_example) ''9.9.9.9:9999''))
   \<and> ''9.9.9.9:9999'' \<notin> connecting (run_pool (DashNet_init False Map.empty False [] None 0) pool_steps_example)
   \<and> fst (run_new_peer (run_pool (DashNet_init False Map.empty False [] None 0) pool_steps_example)
        ''5.6.7.8:9999'' peer_a Ready) = None
   \<and> ''5.6.7.8:9999'' \<notin> connecting (snd (run_new_peer
        (run_pool (DashNet_init False Map.empty False [] None 0) pool_steps_example)
        ''5.6.7.8:9999'' peer_a Ready))"
  using live_not_connecting [of False Map.empty False "[]" None 0 pool_steps_example
      "''9.9.9.9:9999''" "run_pool (DashNet_init False Map.empty False [] None 0) pool_steps_example"
      "''9.9.9.9:9999''" peer_a Ready]
    live_not_connecting [of False Map.empty False "[]" None 0 pool_steps_example
      "''5.6.7.8:9999''" "run_pool (DashNet_init False Map.empty False [] None 0) pool_steps_example"
      "''5.6.7.8:9999''" peer_a Ready]
  unfolding pool_steps_example_run
  by (simp add: start_peer_def run_new_peer_def DashNet_init_def)

subsection \<open>Peer pool: the ban list\<close>

lemma static_banned_example_eq:
  "static_banned_example =
     (DashNet_init False [''1.2.3.4:9999'' \<mapsto> ban_a] True [''1.2.3.4:9999''] None 0)
       \<lparr>main_taskgroup := Some (TaskGroup False), peers_queue := Some []\<rparr>"
  by (simp add: static_banned_example_def start_def DashNet_init_def Let_def)

text \<open>
  C4. As stated the claim fails in static mode: \<^verbatim>\<open>queue_peers\<close> does not read the ban list
  there. With a static peer that is in the ban list, one call puts the address in the
  connecting set and in the pending-connect queue.
\<close>

theorem queue_peers_static_dials_banned_counterexample:
  "''1.2.3.4:9999'' \<in> dom (banlist static_banned_example)
   \<and> use_static_peers static_banned_example
   \<and> ''1.2.3.4:9999'' \<notin> connecting static_banned_example
   \<and> queue_peers example_clock [] static_banned_example
       = Some (None, static_banned_example
                 \<lparr>connecting := {''1.2.3.4:9999''}, peers_queue := Some [''1.2.3.4:9999'']\<rparr>)"
  by (simp add: static_banned_example_eq queue_peers_def start_peer_def peers_total_def
        max_peers_def DashNet_init_def MAX_PEERS_DEFAULT_def Let_def)

lemma random_choice_mem:
  "finite A \<Longrightarrow> A \<noteq> {} \<Longrightarrow> random_choice r (sorted_list_of_set A) \<in> A"
proof -
  assume fin: "finite A" and ne: "A \<noteq> {}"
  have len: "0 < length (sorted_list_of_set A)"
    using fin ne by (simp add: sorted_list_of_set.length_sorted_key_list_of_set card_gt_0_iff)
  have "sorted_list_of_set A ! (r mod length (sorted_list_of_set A)) \<in> set (sorted_list_of_set A)"
    using len by (intro nth_mem) simp
  then show ?thesis
    using fin by (simp add: random_choice_def)
qed

lemma banned_not_candidate:
  "p \<in> dom (banlist s) \<Longrightarrow> p \<notin> peers_union s \<and> p \<notin> available_peers s"
  by (simp add: peers_union_def available_peers_def Let_def)

lemma start_peer_other:
  "p \<noteq> a \<Longrightarrow>
     (p \<in> connecting (snd (start_peer s a)) \<longrightarrow> p \<in> connecting s)
   \<and> (p \<in> queued (snd (start_peer s a)) \<longrightarrow> p \<in> queued s)"
  by (auto simp add: start_peer_def queued_def Let_def split: option.splits)

lemma start_peer_frame:
  "banlist (snd (start_peer s a)) = banlist s
   \<and> found_peers (snd (start_peer s a)) = found_peers s
   \<and> use_static_peers (snd (start_peer s a)) = use_static_peers s"
  by (simp add: start_peer_def Let_def split: option.splits)

lemma pass_banned:
  assumes "finite (found_peers s)" and "p \<in> dom (banlist s)"
  shows "(p \<in> connecting (snd (queue_dynamic_pass r s)) \<longrightarrow> p \<in> connecting s)
       \<and> (p \<in> queued (snd (queue_dynamic_pass r s)) \<longrightarrow> p \<in> queued s)"
proof (cases "available_peers s = {}")
  case True
  then show ?thesis by (simp add: queue_dynamic_pass_def)
next
  case False
  have fin: "finite (available_peers s)"
    using assms(1) by (simp add: available_peers_def Let_def)
  have "random_choice r (sorted_list_of_set (available_peers s)) \<in> available_peers s"
    using fin False by (rule random_choice_mem)
  then have "p \<noteq> random_choice r (sorted_list_of_set (available_peers s))"
    using banned_not_candidate [OF assms(2)] by auto
  then show ?thesis
    using False start_peer_other by (simp add: queue_dynamic_pass_def)
qed

lemma pass_frame:
  "banlist (snd (queue_dynamic_pass r s)) = banlist s
   \<and> found_peers (snd (queue_dynamic_pass r s)) = found_peers s"
  by (simp add: queue_dynamic_pass_def start_peer_frame)

lemma dynamic_banned:
  "finite (found_peers s) \<Longrightarrow> p \<in> dom (banlist s) \<Longrightarrow> queue_dynamic rs s = Some res \<Longrightarrow>
     (p \<in> connecting (snd res) \<longrightarrow> p \<in> connecting s) \<and> (p \<in> queued (snd res) \<longrightarrow> p \<in> queued s)"
proof (induction rs arbitrary: s)
  case Nil
  then show ?case by (auto split: if_splits)
next
  case (Cons r rs)
  obtain e s1 where pass: "queue_dynamic_pass r s = (e, s1)"
    by (cases "queue_dynamic_pass r s")
  have step: "(p \<in> connecting s1 \<longrightarrow> p \<in> connecting s) \<and> (p \<in> queued s1 \<longrightarrow> p \<in> queued s)"
    using pass_banned [OF Cons.prems(1) Cons.prems(2), of r] pass by simp
  have frame: "finite (found_peers s1)" "p \<in> dom (banlist s1)"
    using pass_frame [of r s] pass Cons.prems(1) Cons.prems(2) by simp_all
  show ?case
  proof (cases "peers_total s < max_peers s")
    case False
    then show ?thesis using Cons.prems(3) by auto
  next
    case True
    show ?thesis
    proof (cases e)
      case None
      then have "queue_dynamic rs s1 = Some res"
        using Cons.prems(3) True pass by simp
      then show ?thesis using Cons.IH [OF frame] step by blast
    next
      case (Some err)
      then have "res = (Some err, s1)"
        using Cons.prems(3) True pass by simp
      then show ?thesis using step by simp
    qed
  qed
qed

lemma find_peers_frame:
  "find_peers ia ans r s = Some s1 \<Longrightarrow> connecting s1 = connecting s \<and> peers_queue s1 = peers_queue s"
  by (auto simp add: find_peers_def Let_def split: if_splits option.splits)


text \<open>
  C4, amended. An address in the ban list is never among the candidates that discovery
  counts (\<open>peers_union\<close>) nor among the addresses available for dialing
  (\<open>available_peers\<close>), and \<^verbatim>\<open>find_peers\<close> dials nothing. In dynamic mode it is never
  dialed: neither a pass of the loop of \<^verbatim>\<open>queue_peers\<close> nor a whole call adds it to the
  connecting set or to the pending-connect queue.
\<close>

theorem banned_never_dialed_dynamic:
  "p \<in> dom (banlist s) \<longrightarrow>
     p \<notin> peers_union s \<and> p \<notin> available_peers s
     \<and> (find_peers is_active answers r s = Some s1 \<longrightarrow>
          connecting s1 = connecting s \<and> peers_queue s1 = peers_queue s)
     \<and> (finite (found_peers s) \<longrightarrow>
          (p \<in> connecting (snd (queue_dynamic_pass r s)) \<longrightarrow> p \<in> connecting s)
        \<and> (p \<in> queued (snd (queue_dynamic_pass r s)) \<longrightarrow> p \<in> queued s))
     \<and> (finite (found_peers s) \<and> \<not> use_static_peers s \<and> queue_peers clock rs s = Some res \<longrightarrow>
          (p \<in> connecting (snd res) \<longrightarrow> p \<in> connecting s)
        \<and> (p \<in> queued (snd res) \<longrightarrow> p \<in> queued s))"
proof (intro impI)
  assume ban: "p \<in> dom (banlist s)"
  have dyn: "(p \<in> connecting (snd res) \<longrightarrow> p \<in> connecting s) \<and> (p \<in> queued (snd res) \<longrightarrow> p \<in> queued s)"
    if "finite (found_peers s) \<and> \<not> use_static_peers s \<and> queue_peers clock rs s = Some res"
  proof (cases "peers_total s \<ge> max_peers s")
    case True
    then show ?thesis using that by (auto simp add: queue_peers_def)
  next
    case False
    then have "queue_dynamic rs s = Some res"
      using that by (auto simp add: queue_peers_def)
    then show ?thesis
      using dynamic_banned [of s p rs res] that ban by blast
  qed
  show "p \<notin> peers_union s \<and> p \<notin> available_peers s
     \<and> (find_peers is_active answers r s = Some s1 \<longrightarrow>
          connecting s1 = connecting s \<and> peers_queue s1 = peers_queue s)
     \<and> (finite (found_peers s) \<longrightarrow>
          (p \<in> connecting (snd (queue_dynamic_pass r s)) \<longrightarrow> p \<in> connecting s)
        \<and> (p \<in> queued (snd (queue_dynamic_pass r s)) \<longrightarrow> p \<in> queued s))
     \<and> (finite (found_peers s) \<and> \<not> use_static_peers s \<and> queue_peers clock rs s = Some res \<longrightarrow>
          (p \<in> connecting (snd res) \<longrightarrow> p \<in> connecting s)
        \<and> (p \<in> queued (snd res) \<longrightarrow> p \<in> queued s))"
    using banned_not_candidate [OF ban] find_peers_frame [of is_active answers r s s1]
      pass_banned [of s p r] ban dyn
    by blast
qed

lemma str_9999: "str_int 9999 = ''9999''"
  by (simp add: str_int_def str_nat.simps digit_char_def)

lemma dynamic_banned_example_eq:
  "dynamic_banned_example =
     (DashNet_init False [''1.2.3.4:9999'' \<mapsto> ban_a] False [] None 0)
       \<lparr>main_taskgroup := Some (TaskGroup False), peers_queue := Some [],
        found_peers := {''1.2.3.4:9999'', ''5.6.7.8:9999'', ''9.9.9.9:9999''}\<rparr>"
  by (simp add: dynamic_banned_example_def start_def find_peers_def peers_union_def
        DashNet_init_def Let_def str_9999)

lemma avail1:
  "sorted_list_of_set {''5.6.7.8:9999'', ''9.9.9.9:9999''} = [''5.6.7.8:9999'', ''9.9.9.9:9999'']"
  by code_simp

lemma avail2:
  "sorted_list_of_set {''9.9.9.9:9999''} = [''9.9.9.9:9999'']"
  by simp

lemma dynamic_banned_run:
  "queue_peers example_clock [0, 0] dynamic_banned_example
   = Some (None, dynamic_banned_example
        \<lparr>connecting := {''5.6.7.8:9999'', ''9.9.9.9:9999''},
         peers_queue := Some [''5.6.7.8:9999'', ''9.9.9.9:9999'']\<rparr>)"
  by (simp add: dynamic_banned_example_eq queue_peers_def queue_dynamic_pass_def
        available_peers_def start_peer_def peers_total_def random_choice_def
        max_peers_def DashNet_init_def MAX_PEERS_DEFAULT_def Let_def avail1 avail2
        insert_Diff_if insert_commute)

theorem banned_never_dialed_dynamic_witness:
  "''1.2.3.4:9999'' \<in> dom (banlist dynamic_banned_example)
   \<and> ''1.2.3.4:9999'' \<in> found_peers dynamic_banned_example
   \<and> finite (found_peers dynamic_banned_example)
   \<and> \<not> use_static_peers dynamic_banned_example
   \<and> queue_peers example_clock [0, 0] dynamic_banned_example
       = Some (None, dynamic_banned_example
            \<lparr>connecting := {''5.6.7.8:9999'', ''9.9.9.9:9999''},
             peers_queue := Some [''5.6.7.8:9999'', ''9.9.9.9:9999'']\<rparr>)
   \<and> ''1.2.3.4:9999'' \<notin> peers_union dynamic_banned_example
   \<and> ''1.2.3.4:9999'' \<notin> connecting (dynamic_banned_example
            \<lparr>connecting := {''5.6.7.8:9999'', ''9.9.9.9:9999''},
             peers_queue := Some [''5.6.7.8:9999'', ''9.9.9.9:9999'']\<rparr>)"
proof -
  have facts: "''1.2.3.4:9999'' \<in> dom (banlist dynamic_banned_example)"
    "''1.2.3.4:9999'' \<in> found_peers dynamic_banned_example"
    "finite (found_peers dynamic_banned_example)"
    "\<not> use_static_peers dynamic_banned_example"
    "''1.2.3.4:9999'' \<notin> connecting dynamic_banned_example"
    by (simp_all add: dynamic_banned_example_eq DashNet_init_def)
  show ?thesis
    using banned_never_dialed_dynamic [of "''1.2.3.4:9999''" dynamic_banned_example
        "\<lambda>p. False" "[]" 0 dynamic_banned_example example_clock "[0, 0]"
        "(None, dynamic_banned_example
            \<lparr>connecting := {''5.6.7.8:9999'', ''9.9.9.9:9999''},
             peers_queue := Some [''5.6.7.8:9999'', ''9.9.9.9:9999'']\<rparr>)"]
      facts dynamic_banned_run
    by simp
qed

end
